theory Spec2Isabelle
  imports Complex_Main
begin

section \<open>Errors and Python built-ins\<close>

text \<open>
  The exceptions the modelled functions of \<^verbatim>\<open>fmch/hsicos.py\<close> can raise.
  \<open>UnboundLocalError\<close> stands for reading a local variable that no branch assigned,
  \<open>AttributeError\<close> for reading a column that a pivoted table does not have.
\<close>

datatype error = ValueError | KeyError | IndexError | UnboundLocalError | AttributeError

text \<open>
  Python's \<^verbatim>\<open>min(iterable, key=f)\<close>: it walks the items once and replaces the
  current best only by an item whose key is strictly smaller, so the first item with the
  smallest key is returned; an empty iterable raises \<open>ValueError\<close>.
\<close>

fun min_by :: "('a \<Rightarrow> 'b::linorder) \<Rightarrow> 'a \<Rightarrow> 'a list \<Rightarrow> 'a" where
  "min_by key best [] = best"
| "min_by key best (x # xs) = min_by key (if key x < key best then x else best) xs"

definition py_min :: "('a \<Rightarrow> 'b::linorder) \<Rightarrow> 'a list \<Rightarrow> error + 'a" where
  "py_min key items = (case items of [] \<Rightarrow> Inl ValueError | x # xs \<Rightarrow> Inr (min_by key x xs))"

text \<open>The slice \<^verbatim>\<open>xs[lo:hi]\<close> for indices that are not negative.\<close>

definition py_slice :: "'a list \<Rightarrow> nat \<Rightarrow> nat \<Rightarrow> 'a list" where
  "py_slice xs lo hi = drop lo (take hi xs)"

text \<open>\<^verbatim>\<open>pat in s\<close> for strings, which is what \<^verbatim>\<open>str.contains\<close> tests for a
  pattern without regular-expression operators.\<close>

fun contains :: "string \<Rightarrow> string \<Rightarrow> bool" where
  "contains pat [] = (pat = [])"
| "contains pat (c # cs) = (take (length pat) (c # cs) = pat \<or> contains pat cs)"

text \<open>\<^verbatim>\<open>str(x)\<close> of a natural number and \<^verbatim>\<open>s.zfill(w)\<close> of an unsigned numeral.\<close>

definition digit :: "nat \<Rightarrow> char" where
  "digit d = ''0123456789'' ! (d mod 10)"

fun str_nat :: "nat \<Rightarrow> string" where
  "str_nat n = (if n < 10 then [digit n] else str_nat (n div 10) @ [digit (n mod 10)])"

declare str_nat.simps [simp del]

definition zfill :: "nat \<Rightarrow> string \<Rightarrow> string" where
  "zfill w s = replicate (w - length s) (CHR ''0'') @ s"

text \<open>The project's marker of a missing number.\<close>

definition sentinel :: real where
  "sentinel = - 9999"

section \<open>Temporal matcher\<close>

text \<open>
  \<^verbatim>\<open>def nearest(items, target): return min(items, key=lambda x: abs(x - target))\<close>
  The items are numbers or dates (a date is its day number); the difference of two of them
  has an absolute value that is compared.
\<close>

definition nearest :: "'a::linordered_idom list \<Rightarrow> 'a \<Rightarrow> error + 'a" where
  "nearest items target = py_min (\<lambda>x. \<bar>x - target\<bar>) items"

section \<open>Spectral window\<close>

text \<open>
  \<^verbatim>\<open>_fnv(values, target)\<close>: the index of the value closest to the target. The two
  warnings only log; their tests call \<^verbatim>\<open>max(values)\<close> and \<^verbatim>\<open>min(values)\<close>,
  which raise \<open>ValueError\<close> on an empty list. For a list the index is
  \<^verbatim>\<open>min(range(len(values)), key=lambda i: abs(values[i]-target))\<close>; for an array
  \<^verbatim>\<open>argmin\<close> gives the same first index of the minimum. Wavelengths are read as
  exact numbers.
\<close>

definition fnv :: "real list \<Rightarrow> real \<Rightarrow> error + nat" where
  "fnv values target =
     (if values = [] then Inl ValueError
      else py_min (\<lambda>i. \<bar>values ! i - target\<bar>) [0..<length values])"

definition nm_min :: real where
  "nm_min = 400"

text \<open>\<open>nm_max\<close> is assigned in an \<^verbatim>\<open>if/elif/elif\<close> chain with no \<^verbatim>\<open>else\<close>.\<close>

definition nm_max :: "string \<Rightarrow> real option" where
  "nm_max sr =
     (if sr = ''vis'' then Some 700
      else if sr = ''vnir'' then Some 1000
      else if sr = ''vswir'' then Some 2500
      else None)"

text \<open>
  \<^verbatim>\<open>wl_min = _fnv(wlss[0], nm_min); wl_max = _fnv(wlss[0], nm_max) + 1\<close>
\<close>

definition band_window :: "real list \<Rightarrow> string \<Rightarrow> error + (nat \<times> nat)" where
  "band_window wls sr =
     (case fnv wls nm_min of Inl e \<Rightarrow> Inl e
      | Inr lo \<Rightarrow>
         (case nm_max sr of None \<Rightarrow> Inl UnboundLocalError
          | Some u \<Rightarrow>
             (case fnv wls u of Inl e \<Rightarrow> Inl e
              | Inr hi \<Rightarrow> Inr (lo, hi + 1))))"

text \<open>The band indices that \<^verbatim>\<open>[wl_min:wl_max]\<close> keeps of a sensor's bands.\<close>

definition retained_bands :: "real list \<Rightarrow> string \<Rightarrow> error + nat list" where
  "retained_bands wls sr =
     (case band_window wls sr of Inl e \<Rightarrow> Inl e
      | Inr (lo, hi) \<Rightarrow> Inr (py_slice [0..<length wls] lo hi))"

section \<open>Zonal buffer\<close>

text \<open>The \<^verbatim>\<open>if zonal:\<close> branch of \<^verbatim>\<open>_model_geoms\<close> choosing \<open>zr\<close>.\<close>

definition zonal_radius :: "string \<Rightarrow> error + nat" where
  "zonal_radius ecosystem =
     (if ecosystem \<in> set [''MF'', ''DBF'', ''EBF'', ''ENF''] then Inr 80
      else if ecosystem \<in> set [''SAV'', ''WSA''] then Inr 60
      else if ecosystem \<in> set [''GRA'', ''OSH'', ''CSH''] then Inr 50
      else if ecosystem = ''WET'' then Inr 40
      else if ecosystem = ''CRO'' then Inr 30
      else Inl ValueError)"

section \<open>Displacement height and instrument height\<close>

text \<open>
  One row of the pivoted ancillary table (\<^verbatim>\<open>flx_anc\<close> by \<open>GROUP_ID\<close>): its variable
  group, the height, the statistic the height stands for, the species it is restricted to
  (\<open>None\<close> is a null \<open>HEIGHTC_SPP\<close>) and the date of the observation as a day number.
\<close>

record anc_row =
  GROUP_ID :: nat
  VARIABLE_GROUP :: string
  HEIGHTC :: real
  HEIGHTC_STATISTIC :: string
  HEIGHTC_SPP :: "string option"
  HEIGHTC_DATE :: int

text \<open>
  What the code knows of the displacement height \<open>D\<close> when the loop over the image dates
  starts: a value fixed for all dates (\<open>D_default\<close> or \<open>D_avg\<close> is set), a table
  \<open>flx_anc_w\<close> with the selected dated rows \<open>D_hdates\<close>, or nothing, when no branch
  of the ecosystem test assigned \<open>D_hdates\<close>.
\<close>

datatype d_source = D_fixed real | D_dated "anc_row list" "anc_row list" | D_unbound

definition p75 :: string where
  "p75 = ''75th Percentile''"

definition is_mean :: "anc_row \<Rightarrow> bool" where
  "is_mean r = (HEIGHTC_STATISTIC r \<in> set [''Mean'', ''Single observation''])"

text \<open>
  \<^verbatim>\<open>_icos_height_aux\<close>. The result is the table, the selected rows and the flag
  \<open>D_avg\<close>. \<open>has_spp\<close> is the test on the unpivoted file whether a \<open>HEIGHTC_SPP\<close>
  variable occurs at all. Two branches assign \<open>D_gid0\<close> only under an inner condition, so
  the test of its length can find it unbound; a table without rows, or without the species
  column the code reads, has no such attribute.
\<close>

definition icos_height_aux :: "anc_row list \<Rightarrow> error + (anc_row list \<times> anc_row list \<times> bool)" where
  "icos_height_aux flx_anc =
     (let w = filter (\<lambda>r. VARIABLE_GROUP r = ''GRP_HEIGHTC'') flx_anc;
          has_p75 = (\<exists>r \<in> set w. HEIGHTC_STATISTIC r = p75);
          has_mean = (\<exists>r \<in> set w. is_mean r);
          has_spp = (\<exists>r \<in> set flx_anc. HEIGHTC_SPP r \<noteq> None);
          spp_column = (\<exists>r \<in> set w. HEIGHTC_SPP r \<noteq> None);
          spp_null = (\<exists>r \<in> set w. HEIGHTC_SPP r = None);
          finish = (\<lambda>sel avg. if sel = [] then Inl KeyError else Inr (w, sel, avg))
      in if w = [] then Inl AttributeError
         else if has_p75 \<and> \<not> has_spp then
           finish (filter (\<lambda>r. HEIGHTC_STATISTIC r = p75) w) False
         else if has_p75 \<and> has_spp then
           (if \<not> spp_column then Inl AttributeError
            else if spp_null then
              finish (filter (\<lambda>r. HEIGHTC_STATISTIC r = p75 \<and> HEIGHTC_SPP r = None) w) False
            else Inl UnboundLocalError)
         else if has_mean \<and> \<not> has_spp then
           finish (filter is_mean w) False
         else if has_mean \<and> has_spp then
           (if \<not> spp_column then Inl AttributeError
            else if spp_null then
              finish (filter (\<lambda>r. is_mean r \<and> HEIGHTC_SPP r = None) w) False
            else
              finish (filter (\<lambda>r. HEIGHTC_STATISTIC r = ''Mean'' \<and> HEIGHTC_SPP r \<noteq> None) w) True)
         else Inl KeyError)"

definition mean :: "real list \<Rightarrow> real" where
  "mean xs = sum_list xs / real (length xs)"

text \<open>
  The part of \<^verbatim>\<open>_load_icos_subset\<close> between reading the ancillary file and reading
  the instrument file: the ecosystem class decides where \<open>D\<close> comes from. A wetland gets
  \<^verbatim>\<open>D = 0.1\<close> and \<^verbatim>\<open>D_default = True\<close>; a class that no branch names leaves
  everything unassigned. With \<open>D_avg\<close> set, \<open>D\<close> is the mean height of the selected rows.
  The tree-height branch reads the species column of its table, which exists only when
  some row of the group names a species.
\<close>

definition resolve_D_source :: "string \<Rightarrow> anc_row list \<Rightarrow> error + d_source" where
  "resolve_D_source igbp_class flx_anc =
     (let aux = (case icos_height_aux flx_anc of Inl e \<Rightarrow> Inl e
                 | Inr (w, sel, avg) \<Rightarrow>
                     Inr (if avg then D_fixed (mean (map HEIGHTC sel)) else D_dated w sel))
      in if igbp_class \<in> set [''DBF'', ''ENF'', ''EBF'', ''MF''] then
           (if \<exists>r \<in> set flx_anc. VARIABLE_GROUP r = ''GRP_TREE_HEIGHT'' then
              (let w = filter (\<lambda>r. VARIABLE_GROUP r = ''GRP_TREE_HEIGHT'') flx_anc
               in if \<not> (\<exists>r \<in> set w. HEIGHTC_SPP r \<noteq> None) then Inl AttributeError
                  else Inr (D_dated w
                    (filter (\<lambda>r. HEIGHTC_STATISTIC r = p75 \<and> HEIGHTC_SPP r = None) w)))
            else if \<exists>r \<in> set flx_anc. VARIABLE_GROUP r = ''GRP_HEIGHTC'' then aux
            else Inl KeyError)
         else if igbp_class \<in> set [''CRO'', ''GRA'', ''OSH'', ''CSH'', ''SAV'', ''WSA''] then aux
         else if igbp_class = ''WET'' then Inr (D_fixed (1 / 10))
         else Inr D_unbound)"

text \<open>\<^verbatim>\<open>series.item()\<close>: the only element, or \<open>ValueError\<close>.\<close>

definition item :: "'a list \<Rightarrow> error + 'a" where
  "item xs = (case xs of [x] \<Rightarrow> Inr x | _ \<Rightarrow> Inl ValueError)"

text \<open>
  \<open>D\<close> for one image date inside the loop: unchanged when it is fixed; otherwise the
  height of the last selected row whose date is the nearest one to the image date.
\<close>

definition D_for :: "d_source \<Rightarrow> int \<Rightarrow> error + real" where
  "D_for src idate =
     (case src of
        D_fixed D \<Rightarrow> Inr D
      | D_unbound \<Rightarrow> Inl UnboundLocalError
      | D_dated w sel \<Rightarrow>
          (case nearest (map HEIGHTC_DATE sel) idate of Inl e \<Rightarrow> Inl e
           | Inr d \<Rightarrow>
              (let D_gid = GROUP_ID (last (filter (\<lambda>r. HEIGHTC_DATE r = d) sel))
               in item (map HEIGHTC (filter (\<lambda>r. GROUP_ID r = D_gid) w)))))"

text \<open>One row of the pivoted instrument table \<^verbatim>\<open>flx_ins_w\<close>.\<close>

record ins_row =
  INSTOM_ID :: nat
  INSTOM_MODEL :: string
  INSTOM_TYPE :: string
  INSTOM_DATE :: int
  INSTOM_HEIGHT :: real

definition senstr :: "ins_row list \<Rightarrow> error + string" where
  "senstr flx_ins_w =
     (if \<exists>r \<in> set flx_ins_w. contains ''LI-COR'' (INSTOM_MODEL r) then Inr ''LI-COR''
      else if \<exists>r \<in> set flx_ins_w. contains ''Campbell EC'' (INSTOM_MODEL r)
        then Inr ''Campbell EC''
      else Inl KeyError)"

text \<open>The installation records of the eddy-covariance sensor (\<open>Z_gid0\<close>).\<close>

definition installations :: "ins_row list \<Rightarrow> string \<Rightarrow> ins_row list" where
  "installations flx_ins_w s =
     filter (\<lambda>r. contains s (INSTOM_MODEL r) \<and> INSTOM_TYPE r = ''Installation'') flx_ins_w"

text \<open>
  \<open>Z_hdates\<close>: the group ids indexed by installation date, sorted by date.
  \<^verbatim>\<open>truncate(after=idate)\<close> keeps the entries dated at or before \<open>idate\<close>.
\<close>

definition Z_hdates :: "ins_row list \<Rightarrow> string \<Rightarrow> (int \<times> nat) list" where
  "Z_hdates flx_ins_w s =
     sort_key fst (map (\<lambda>r. (INSTOM_DATE r, INSTOM_ID r)) (installations flx_ins_w s))"

definition truncate_after :: "(int \<times> nat) list \<Rightarrow> int \<Rightarrow> (int \<times> nat) list" where
  "truncate_after zh idate = filter (\<lambda>e. fst e \<le> idate) zh"

text \<open>
  \<^verbatim>\<open>try: Z_gid = Z_hdates.truncate(after=idate)[-1]
  except IndexError: Z_gid = Z_hdates[0]\<close>
\<close>

definition Z_gid :: "(int \<times> nat) list \<Rightarrow> int \<Rightarrow> error + nat" where
  "Z_gid zh idate =
     (case rev (truncate_after zh idate) of
        e # _ \<Rightarrow> Inr (snd e)
      | [] \<Rightarrow> (case zh of [] \<Rightarrow> Inl IndexError | e # _ \<Rightarrow> Inr (snd e)))"

definition Z_for :: "ins_row list \<Rightarrow> string \<Rightarrow> int \<Rightarrow> error + real" where
  "Z_for flx_ins_w s idate =
     (case Z_gid (Z_hdates flx_ins_w s) idate of Inl e \<Rightarrow> Inl e
      | Inr g \<Rightarrow> item (map INSTOM_HEIGHT (filter (\<lambda>r. INSTOM_ID r = g) flx_ins_w)))"

text \<open>
  The body of the loop over the image dates: a date without any flux record keeps the
  initial \<open>ZM\<close> entry; otherwise \<open>D\<close>, then \<open>Z\<close>, then the test \<^verbatim>\<open>if D > Z: raise
  ValueError\<close>, then \<^verbatim>\<open>ZM[i] = Z-D\<close>.
\<close>

definition zm_entry :: "d_source \<Rightarrow> ins_row list \<Rightarrow> string \<Rightarrow> int list \<Rightarrow> int \<Rightarrow> error + real" where
  "zm_entry src flx_ins_w s missd idate =
     (if idate \<in> set missd then Inr sentinel
      else case D_for src idate of Inl e \<Rightarrow> Inl e
        | Inr D \<Rightarrow>
           (case Z_for flx_ins_w s idate of Inl e \<Rightarrow> Inl e
            | Inr Z \<Rightarrow> if D > Z then Inl ValueError else Inr (Z - D)))"

fun zm_loop :: "d_source \<Rightarrow> ins_row list \<Rightarrow> string \<Rightarrow> int list \<Rightarrow> int list \<Rightarrow> error + real list" where
  "zm_loop src flx_ins_w s missd [] = Inr []"
| "zm_loop src flx_ins_w s missd (idate # ds) =
     (case zm_entry src flx_ins_w s missd idate of Inl e \<Rightarrow> Inl e
      | Inr zm \<Rightarrow>
         (case zm_loop src flx_ins_w s missd ds of Inl e \<Rightarrow> Inl e
          | Inr zms \<Rightarrow> Inr (zm # zms)))"

text \<open>
  The heights \<open>ZM\<close> that \<^verbatim>\<open>_load_icos_subset\<close> returns: in zonal mode the function
  returns before any height is read, with every entry at its initial value.
\<close>

definition load_ZM :: "bool \<Rightarrow> string \<Rightarrow> anc_row list \<Rightarrow> ins_row list \<Rightarrow> int list \<Rightarrow> int list \<Rightarrow> error + real list" where
  "load_ZM zonal igbp_class flx_anc flx_ins_w missd datelist =
     (if zonal then Inr (replicate (length datelist) sentinel)
      else case resolve_D_source igbp_class flx_anc of Inl e \<Rightarrow> Inl e
        | Inr src \<Rightarrow>
           (case senstr flx_ins_w of Inl e \<Rightarrow> Inl e
            | Inr s \<Rightarrow> zm_loop src flx_ins_w s missd datelist))"

section \<open>Footprint geometry builder\<close>

text \<open>
  A pandas series is a list of labelled numbers; selecting by a list of labels returns
  every entry carrying one of them, label by label, and raises \<open>KeyError\<close> when a label
  has no entry.
\<close>

type_synonym series = "(string \<times> real) list"

definition series_loc :: "series \<Rightarrow> string list \<Rightarrow> error + series" where
  "series_loc s labels =
     (if \<forall>l \<in> set labels. l \<in> fst ` set s
      then Inr (concat (map (\<lambda>l. filter (\<lambda>e. fst e = l) s) labels))
      else Inl KeyError)"

text \<open>The columns of the image inventory \<^verbatim>\<open>img_db\<close> that the builder reads or writes.\<close>

record img_row =
  name :: string
  date :: int
  dataTakeID :: string
  clouds :: string
  era_pblh :: real

text \<open>
  A geometry is the circle of a given radius around the site, or the polygon through the
  footprint contour; \<open>None\<close> is the null geometry.
\<close>

datatype geometry = Buffer nat | Polygon "(real \<times> real) list"

text \<open>
  \<^verbatim>\<open>icos_subset.loc[icos_subset.TIMESTAMP_END.dt.date == date, :].squeeze(axis=0)\<close>:
  one matching row is squeezed to a series, any other number of rows stays a frame.
\<close>

datatype selection = Row series | Frame "series list"

definition squeeze_rows :: "(int \<times> series) list \<Rightarrow> int \<Rightarrow> selection" where
  "squeeze_rows icos_subset d =
     (case filter (\<lambda>r. fst r = d) icos_subset of
        [r] \<Rightarrow> Row (snd r)
      | rs \<Rightarrow> Frame (map snd rs))"

definition required_fields :: "string list" where
  "required_fields = [''WS'', ''PBLH'', ''MO_LENGTH'', ''V_SIGMA'', ''USTAR'', ''WD'']"

text \<open>
  \<^verbatim>\<open>self.img_db.loc[self.img_db.dataTakeID == dtakes.iloc[i], 'clouds'] = v\<close>
\<close>

definition set_clouds :: "img_row list \<Rightarrow> string \<Rightarrow> string \<Rightarrow> img_row list" where
  "set_clouds img_db dt v = map (\<lambda>r. if dataTakeID r = dt then r\<lparr>clouds := v\<rparr> else r) img_db"

definition zeros :: "string list \<Rightarrow> series" where
  "zeros fluxvars = map (\<lambda>v. (v, 0)) fluxvars"

text \<open>
  One round of the loop of \<^verbatim>\<open>_model_geoms\<close> for the image at row \<open>idx\<close> of the
  inventory, with its entry \<open>zm\<close> of \<open>ZM\<close>. The result is the inventory, \<open>geoms[i]\<close>
  and \<open>ffp_params[i]\<close>. In zonal mode the round ends after the selection
  (\<^verbatim>\<open>if zonal: continue\<close>) and the geometry stays the buffer set before the loop.
  Otherwise a frame makes the test of the \<^verbatim>\<open>if\<close> a series, whose truth value raises
  \<open>ValueError\<close>. \<open>era\<close> says that the site takes its boundary-layer height from the
  inventory. \<open>ffp\<close> is the external footprint model together with the translation of its
  80 percent contour to the site: it is given the height and the matched record.
\<close>

definition geom_step ::
  "(real \<Rightarrow> series \<Rightarrow> error + (real \<times> real) list) \<Rightarrow> bool \<Rightarrow> geometry option \<Rightarrow> bool
    \<Rightarrow> string list \<Rightarrow> int list \<Rightarrow> (int \<times> series) list \<Rightarrow> img_row list \<Rightarrow> nat \<Rightarrow> real
    \<Rightarrow> error + (img_row list \<times> geometry option \<times> selection)" where
  "geom_step ffp zonal zgeom era fluxvars missd icos_subset img_db idx zm =
     (let r = img_db ! idx; sel = squeeze_rows icos_subset (date r)
      in if zonal then Inr (img_db, zgeom, sel)
         else case sel of
           Frame _ \<Rightarrow> Inl ValueError
         | Row s0 \<Rightarrow>
            (let s = (if era then s0 @ [(''PBLH'', era_pblh r)] else s0)
             in case series_loc s required_fields of Inl e \<Rightarrow> Inl e
                | Inr vals \<Rightarrow>
                   if sentinel \<in> snd ` set vals \<or> date r \<in> set missd
                   then Inr (set_clouds img_db (dataTakeID r) ''icos_na'', None,
                             Row (zeros fluxvars))
                   else (case ffp zm s of Inl e \<Rightarrow> Inl e
                         | Inr poly \<Rightarrow> Inr (img_db, Some (Polygon poly), Row s))))"

fun geom_loop ::
  "(real \<Rightarrow> series \<Rightarrow> error + (real \<times> real) list) \<Rightarrow> bool \<Rightarrow> geometry option \<Rightarrow> bool
    \<Rightarrow> string list \<Rightarrow> int list \<Rightarrow> (int \<times> series) list \<Rightarrow> img_row list \<Rightarrow> (nat \<times> real) list
    \<Rightarrow> error + (img_row list \<times> (geometry option \<times> selection) list)" where
  "geom_loop ffp zonal zgeom era fluxvars missd icos_subset img_db [] = Inr (img_db, [])"
| "geom_loop ffp zonal zgeom era fluxvars missd icos_subset img_db (im # ims) =
     (case geom_step ffp zonal zgeom era fluxvars missd icos_subset img_db (fst im) (snd im) of
        Inl e \<Rightarrow> Inl e
      | Inr (db1, g, p) \<Rightarrow>
         (case geom_loop ffp zonal zgeom era fluxvars missd icos_subset db1 ims of
            Inl e \<Rightarrow> Inl e
          | Inr (db2, res) \<Rightarrow> Inr (db2, (g, p) # res)))"

text \<open>One row of the frame \<^verbatim>\<open>flx_geom_gdf\<close> that the builder returns.\<close>

record fz_record =
  fz_name :: string
  fz_dataTakeID :: string
  fz_clouds :: string
  fz_geometry :: "geometry option"
  fluxes :: series

text \<open>
  After the loop the rows of the inventory are read again (so they carry the marks the
  loop made) and joined with the geometries and with \<^verbatim>\<open>pset.loc[fluxvars]\<close> of each
  \<open>ffp_params\<close> entry; a frame has no such row labels.
\<close>

definition flux_of :: "string list \<Rightarrow> selection \<Rightarrow> error + series" where
  "flux_of fluxvars p = (case p of Row s \<Rightarrow> series_loc s fluxvars | Frame _ \<Rightarrow> Inl KeyError)"

fun build_records ::
  "string list \<Rightarrow> img_row list \<Rightarrow> (nat \<times> geometry option \<times> selection) list \<Rightarrow> error + fz_record list" where
  "build_records fluxvars img_db [] = Inr []"
| "build_records fluxvars img_db (x # xs) =
     (case flux_of fluxvars (snd (snd x)) of Inl e \<Rightarrow> Inl e
      | Inr fl \<Rightarrow>
         (case build_records fluxvars img_db xs of Inl e \<Rightarrow> Inl e
          | Inr recs \<Rightarrow>
             Inr (\<lparr>fz_name = name (img_db ! fst x),
                   fz_dataTakeID = dataTakeID (img_db ! fst x),
                   fz_clouds = clouds (img_db ! fst x),
                   fz_geometry = fst (snd x),
                   fluxes = fl\<rparr> # recs)))"

text \<open>
  \<^verbatim>\<open>_model_geoms\<close>. \<open>idxs\<close> is the index of \<open>datelist\<close>, rows of the inventory.
  Concatenating no flux series raises \<open>ValueError\<close>, and the closing quality report reads
  the two flag columns by name.
\<close>

definition model_geoms ::
  "(real \<Rightarrow> series \<Rightarrow> error + (real \<times> real) list) \<Rightarrow> bool \<Rightarrow> string \<Rightarrow> bool
    \<Rightarrow> string list \<Rightarrow> int list \<Rightarrow> (int \<times> series) list \<Rightarrow> img_row list \<Rightarrow> nat list \<Rightarrow> real list
    \<Rightarrow> error + (img_row list \<times> fz_record list)" where
  "model_geoms ffp zonal ecosystem era fluxvars missd icos_subset img_db idxs ZM =
     (case (if zonal
            then (case zonal_radius ecosystem of Inl e \<Rightarrow> Inl e
                  | Inr zr \<Rightarrow> Inr (Some (Buffer zr)))
            else Inr None) of
        Inl e \<Rightarrow> Inl e
      | Inr zgeom \<Rightarrow>
         (case geom_loop ffp zonal zgeom era fluxvars missd icos_subset img_db (zip idxs ZM) of
            Inl e \<Rightarrow> Inl e
          | Inr (db, res) \<Rightarrow>
             if idxs = [] then Inl ValueError
             else (case build_records fluxvars db (zip idxs res) of Inl e \<Rightarrow> Inl e
                   | Inr recs \<Rightarrow>
                      if ''NEE_VUT_50_QC'' \<in> set fluxvars \<and> ''SW_IN_F_QC'' \<in> set fluxvars
                      then Inr (db, recs) else Inl KeyError)))"

section \<open>Spectral cropper and aggregator\<close>

text \<open>
  A cube is held band by band: each band is the list of its pixel values, \<open>None\<close> being
  NaN. Slicing the band axis is slicing the outer list, and the mean over rows and columns
  is a mean per band.
\<close>

type_synonym cube = "real option list list"

definition mask_na :: "real option \<Rightarrow> cube \<Rightarrow> cube" where
  "mask_na na_val c = map (map (\<lambda>v. if na_val \<noteq> None \<and> v = na_val then None else v)) c"

definition mask_negative :: "cube \<Rightarrow> cube" where
  "mask_negative c =
     map (map (\<lambda>v. case v of None \<Rightarrow> None | Some x \<Rightarrow> if x < 0 then None else Some x)) c"

definition times_par :: "real \<Rightarrow> cube \<Rightarrow> cube" where
  "times_par par c = map (map (map_option (\<lambda>x. x * par))) c"

text \<open>\<^verbatim>\<open>np.nanmean\<close> of one band: NaN when no pixel has a value.\<close>

definition nanmean :: "real option list \<Rightarrow> real option" where
  "nanmean vs =
     (let xs = map the (filter (\<lambda>v. v \<noteq> None) vs)
      in if xs = [] then None else Some (mean xs))"

text \<open>
  \<open>geom_px_avgs[i]\<close> is the number \<open>-9999\<close> for a skipped image and an array of band
  means otherwise.
\<close>

datatype px_avgs = Scalar real | Means "real option list"

text \<open>
  One round of the second loop of \<^verbatim>\<open>_crop_hsi_2_geoms\<close>: the skip test, else the
  crop by \<open>local_mask\<close> (the reprojection of the geometry and the raster mask), the two
  replacements by NaN, the band slice, the product with PAR in upwelling mode and the
  band means. It returns \<open>geom_px_avgs[i]\<close> and the quality annotation of the row. The
  annotation \<open>hsi_na\<close> is also copied to the inventory, which this function does not
  read again.
\<close>

definition crop_image ::
  "(cube \<Rightarrow> geometry \<Rightarrow> error + cube) \<Rightarrow> real option \<Rightarrow> nat \<Rightarrow> nat \<Rightarrow> bool
    \<Rightarrow> fz_record \<Rightarrow> cube \<Rightarrow> error + (px_avgs \<times> string)" where
  "crop_image local_mask na_val wl_min wl_max upw r cube_i =
     (if fz_clouds r = ''icos_na'' then Inr (Scalar sentinel, fz_clouds r)
      else case map_of (fluxes r) ''PAR'' of
        None \<Rightarrow> Inl KeyError
      | Some par \<Rightarrow>
         if upw \<and> par = sentinel then Inr (Scalar sentinel, fz_clouds r)
         else (case fz_geometry r of
                 None \<Rightarrow> Inl AttributeError
               | Some g \<Rightarrow>
                  (case local_mask cube_i g of Inl e \<Rightarrow> Inl e
                   | Inr gc \<Rightarrow>
                      (let c1 = mask_negative (mask_na na_val gc);
                           c2 = py_slice c1 wl_min wl_max;
                           c3 = (if upw then times_par par c2 else c2);
                           avgs = map nanmean c3
                       in Inr (Means avgs,
                               if list_all (\<lambda>a. a = None) avgs then ''hsi_na''
                               else fz_clouds r)))))"

fun crop_loop ::
  "(cube \<Rightarrow> geometry \<Rightarrow> error + cube) \<Rightarrow> real option \<Rightarrow> nat \<Rightarrow> nat \<Rightarrow> bool
    \<Rightarrow> (fz_record \<times> cube) list \<Rightarrow> error + (px_avgs \<times> string) list" where
  "crop_loop local_mask na_val wl_min wl_max upw [] = Inr []"
| "crop_loop local_mask na_val wl_min wl_max upw (x # xs) =
     (case crop_image local_mask na_val wl_min wl_max upw (fst x) (snd x) of Inl e \<Rightarrow> Inl e
      | Inr a \<Rightarrow>
         (case crop_loop local_mask na_val wl_min wl_max upw xs of Inl e \<Rightarrow> Inl e
          | Inr as \<Rightarrow> Inr (a # as)))"

text \<open>
  \<^verbatim>\<open>sr_band_ix = ['b' + str(x).zfill(3) for x in range(1, nbands + 1)]\<close>
\<close>

definition sr_band_ix :: "nat \<Rightarrow> string list" where
  "sr_band_ix nbands = map (\<lambda>x. ''b'' @ zfill 3 (str_nat x)) [1..<nbands + 1]"

text \<open>
  \<^verbatim>\<open>pd.Series(vals, index=sr_band_ix)\<close>: a number fills every band column, an array
  must have one value per column.
\<close>

definition band_row :: "string list \<Rightarrow> px_avgs \<Rightarrow> error + (string \<times> real option) list" where
  "band_row names px =
     (case px of
        Scalar v \<Rightarrow> Inr (map (\<lambda>n. (n, Some v)) names)
      | Means ms \<Rightarrow> if length ms = length names then Inr (zip names ms) else Inl ValueError)"

fun band_rows :: "string list \<Rightarrow> px_avgs list \<Rightarrow> error + (string \<times> real option) list list" where
  "band_rows names [] = Inr []"
| "band_rows names (px # pxs) =
     (case band_row names px of Inl e \<Rightarrow> Inl e
      | Inr row \<Rightarrow>
         (case band_rows names pxs of Inl e \<Rightarrow> Inl e
          | Inr rows \<Rightarrow> Inr (row # rows)))"

text \<open>
  \<^verbatim>\<open>_crop_hsi_2_geoms\<close> for the images of one site, each given by the wavelengths and
  the cube read from its crop file, in the order of the rows of \<open>flx_geom_gdf\<close>. The
  window is computed once, from the wavelengths of the first image. The result pairs each
  row (with its annotation after the crop) with its band columns.
\<close>

definition crop_hsi_2_geoms ::
  "(cube \<Rightarrow> geometry \<Rightarrow> error + cube) \<Rightarrow> real option \<Rightarrow> string \<Rightarrow> bool
    \<Rightarrow> fz_record list \<Rightarrow> (real list \<times> cube) list
    \<Rightarrow> error + (fz_record \<times> (string \<times> real option) list) list" where
  "crop_hsi_2_geoms local_mask na_val sr upw flx_geom_gdf imgs =
     (case imgs of
        [] \<Rightarrow> Inl IndexError
      | img0 # _ \<Rightarrow>
         (case band_window (fst img0) sr of Inl e \<Rightarrow> Inl e
          | Inr (wl_min, wl_max) \<Rightarrow>
             (let nbands = length (py_slice (fst img0) wl_min wl_max)
              in case crop_loop local_mask na_val wl_min wl_max upw
                        (zip flx_geom_gdf (map snd imgs)) of
                   Inl e \<Rightarrow> Inl e
                 | Inr res \<Rightarrow>
                    (case band_rows (sr_band_ix nbands) (map fst res) of Inl e \<Rightarrow> Inl e
                     | Inr rows \<Rightarrow>
                        Inr (zip (map (\<lambda>(r, c). r\<lparr>fz_clouds := c\<rparr>)
                                   (zip flx_geom_gdf (map snd res))) rows)))))"

section \<open>Band counts at the first crop\<close>

text \<open>
  What \<^verbatim>\<open>crs_and_cropping\<close> knows of one image of a site: whether its 6 km crop
  file exists, how many raw files match its data take, and the wavelengths of the image.
\<close>

record crop_job =
  crop_exists :: bool
  n_paths :: nat
  wls :: "real list"

text \<open>
  The loop that decodes the images and collects \<open>blength\<close>: an image whose crop exists
  is skipped unless \<open>overwrite\<close> is set, an image without a raw file is skipped, two raw
  files raise \<open>ValueError\<close>.
\<close>

fun blength :: "bool \<Rightarrow> crop_job list \<Rightarrow> error + nat list" where
  "blength overwrite [] = Inr []"
| "blength overwrite (j # js) =
     (if crop_exists j \<and> \<not> overwrite then blength overwrite js
      else if n_paths j = 0 then blength overwrite js
      else if n_paths j > 1 then Inl ValueError
      else (case blength overwrite js of Inl e \<Rightarrow> Inl e
            | Inr bl \<Rightarrow> Inr (length (wls j) # bl)))"

text \<open>
  \<^verbatim>\<open>if len(set(blength)) > 1: raise ValueError('... Wavelengths are not identical for
  all images. ...')\<close>
\<close>

definition band_count_check :: "bool \<Rightarrow> crop_job list \<Rightarrow> error + nat list" where
  "band_count_check overwrite jobs =
     (case blength overwrite jobs of Inl e \<Rightarrow> Inl e
      | Inr bl \<Rightarrow> if length (remdups bl) > 1 then Inl ValueError else Inr bl)"

section \<open>Pipeline entry points\<close>

text \<open>
  The first statement of \<^verbatim>\<open>hsi_geom_crop\<close> and of \<^verbatim>\<open>load_cropped_db\<close>:
  \<^verbatim>\<open>if (upw is True) & (sr != 'vis'): sr = 'vis'\<close> (with a log message).
\<close>

definition normalize_sr :: "bool \<Rightarrow> string \<Rightarrow> string" where
  "normalize_sr upw sr = (if upw \<and> sr \<noteq> ''vis'' then ''vis'' else sr)"

record ptype =
  rad :: string
  mask :: string
  sr :: string
  aggr :: string

definition set_ptype :: "string \<Rightarrow> bool \<Rightarrow> bool \<Rightarrow> string \<Rightarrow> ptype" where
  "set_ptype sr0 zonal upw aggr0 =
     \<lparr>rad = (if upw then ''upw'' else ''ref''),
      mask = (if zonal then ''zst'' else ''ffp''),
      sr = normalize_sr upw sr0,
      aggr = aggr0\<rparr>"

text \<open>
  \<^verbatim>\<open>'all_sites_{}_{}_{}_{}_{}.gpkg'.format(sensor, sr, mask, rad, aggr)\<close>, the name of
  the file that \<^verbatim>\<open>hsi_geom_crop\<close> saves and \<^verbatim>\<open>load_cropped_db\<close> loads.
\<close>

definition fname :: "string \<Rightarrow> ptype \<Rightarrow> string" where
  "fname sensor p =
     ''all_sites_'' @ sensor @ ''_'' @ sr p @ ''_'' @ mask p @ ''_'' @ rad p @ ''_'' @ aggr p
       @ ''.gpkg''"

text \<open>The window \<^verbatim>\<open>hsi_geom_crop\<close> hands to the cropper for a requested range.\<close>

definition crop_window :: "bool \<Rightarrow> string \<Rightarrow> error + (real \<times> real)" where
  "crop_window upw sr0 =
     (case nm_max (normalize_sr upw sr0) of
        None \<Rightarrow> Inl UnboundLocalError
      | Some u \<Rightarrow> Inr (nm_min, u))"

section \<open>Properties of the built-ins\<close>

lemma min_by_split:
  "\<exists>pre post. b # xs = pre @ min_by key b xs # post
     \<and> (\<forall>y \<in> set pre. key (min_by key b xs) < key y)
     \<and> (\<forall>y \<in> set post. key (min_by key b xs) \<le> key y)"
proof (induction xs arbitrary: b)
  case Nil
  show ?case by (intro exI [of _ "[]"]) simp
next
  case (Cons x xs)
  show ?case
  proof (cases "key x < key b")
    case True
    from Cons.IH [of x] obtain pre post where
      s: "x # xs = pre @ min_by key x xs # post"
      and lt: "\<forall>y \<in> set pre. key (min_by key x xs) < key y"
      and le: "\<forall>y \<in> set post. key (min_by key x xs) \<le> key y"
      by blast
    have r: "min_by key b (x # xs) = min_by key x xs"
      using True by simp
    have "x \<in> set (x # xs)" by simp
    then have "x \<in> set (pre @ min_by key x xs # post)"
      unfolding s .
    then have "key (min_by key x xs) \<le> key x"
      using lt le by auto
    then have b: "key (min_by key x xs) < key b"
      using True by simp
    show ?thesis
      unfolding r
    proof (intro exI conjI)
      show "b # x # xs = (b # pre) @ min_by key x xs # post"
        unfolding s by simp
      show "\<forall>y \<in> set (b # pre). key (min_by key x xs) < key y"
        using lt b by simp
      show "\<forall>y \<in> set post. key (min_by key x xs) \<le> key y"
        by (rule le)
    qed
  next
    case False
    then have k: "key b \<le> key x" by simp
    from Cons.IH [of b] obtain pre post where
      s: "b # xs = pre @ min_by key b xs # post"
      and lt: "\<forall>y \<in> set pre. key (min_by key b xs) < key y"
      and le: "\<forall>y \<in> set post. key (min_by key b xs) \<le> key y"
      by blast
    have r: "min_by key b (x # xs) = min_by key b xs"
      using False by simp
    show ?thesis
    proof (cases pre)
      case Nil
      have c: "b # xs = min_by key b xs # post"
        using s unfolding Nil append_Nil .
      have e: "min_by key b xs = b"
        using c by (rule list.inject [THEN iffD1, THEN conjunct1, symmetric])
      have p: "xs = post"
        using c by (rule list.inject [THEN iffD1, THEN conjunct2])
      show ?thesis
        unfolding r e
      proof (intro exI conjI)
        show "b # x # xs = [] @ b # (x # xs)" by simp
        show "\<forall>y \<in> set []. key b < key y" by simp
        have "\<forall>y \<in> set post. key b \<le> key y"
          using le unfolding e .
        then show "\<forall>y \<in> set (x # xs). key b \<le> key y"
          using k unfolding p by simp
      qed
    next
      case (Cons p pre')
      have c: "b # xs = p # (pre' @ min_by key b xs # post)"
        using s unfolding Cons append_Cons .
      have pb: "p = b"
        using c by (rule list.inject [THEN iffD1, THEN conjunct1, symmetric])
      have t: "xs = pre' @ min_by key b xs # post"
        using c by (rule list.inject [THEN iffD1, THEN conjunct2])
      have kb: "key (min_by key b xs) < key b"
        using lt unfolding Cons pb by simp
      show ?thesis
        unfolding r
      proof (intro exI conjI)
        show "b # x # xs = (b # x # pre') @ min_by key b xs # post"
          using t by simp
        show "\<forall>y \<in> set (b # x # pre'). key (min_by key b xs) < key y"
          using lt kb k unfolding Cons by auto
        show "\<forall>y \<in> set post. key (min_by key b xs) \<le> key y"
          by (rule le)
      qed
    qed
  qed
qed

lemma py_min_split:
  assumes "items \<noteq> []"
  shows "\<exists>pre r post. py_min key items = Inr r \<and> items = pre @ r # post
     \<and> (\<forall>y \<in> set pre. key r < key y) \<and> (\<forall>y \<in> set post. key r \<le> key y)"
proof -
  from assms obtain x xs where i: "items = x # xs"
    by (cases items) auto
  from min_by_split [of x xs key] obtain pre post where
    "x # xs = pre @ min_by key x xs # post"
    "\<forall>y \<in> set pre. key (min_by key x xs) < key y"
    "\<forall>y \<in> set post. key (min_by key x xs) \<le> key y"
    by blast
  moreover have "py_min key items = Inr (min_by key x xs)"
    by (simp add: py_min_def i)
  ultimately show ?thesis
    unfolding i by blast
qed

lemma item_single: "item [x] = Inr x"
  by (simp add: item_def)

lemma filter_distinct_key:
  "distinct (map f xs) \<Longrightarrow> r \<in> set xs \<Longrightarrow> filter (\<lambda>x. f x = f r) xs = [r]"
proof (induction xs)
  case Nil
  then show ?case by simp
next
  case (Cons a xs)
  show ?case
  proof (cases "a = r")
    case True
    have "f r \<notin> f ` set xs"
      using Cons.prems(1) True by simp
    then have "\<forall>x \<in> set xs. f x \<noteq> f r"
      by (metis imageI)
    then have "filter (\<lambda>x. f x = f r) xs = []"
      by (simp add: filter_empty_conv)
    then show ?thesis using True by simp
  next
    case False
    then have "r \<in> set xs" using Cons.prems(2) by simp
    moreover have "f a \<noteq> f r"
      using Cons.prems(1) calculation by auto
    ultimately show ?thesis using Cons by simp
  qed
qed

lemma sorted_last_max:
  "sorted (map f xs) \<Longrightarrow> e \<in> set xs \<Longrightarrow> f e \<le> f (last xs)"
proof (induction xs)
  case Nil
  then show ?case by simp
next
  case (Cons a xs)
  then show ?case by (cases xs) auto
qed

lemma sorted_hd_min:
  "sorted (map f xs) \<Longrightarrow> e \<in> set xs \<Longrightarrow> f (hd xs) \<le> f e"
  by (cases xs) auto

section \<open>Properties of the instrument height\<close>

lemma Z_gid_before:
  assumes "sorted (map fst zh)" and "\<exists>e \<in> set zh. fst e \<le> idate"
  shows "\<exists>e \<in> set zh. Z_gid zh idate = Inr (snd e) \<and> fst e \<le> idate
     \<and> (\<forall>e' \<in> set zh. fst e' \<le> idate \<longrightarrow> fst e' \<le> fst e)"
proof -
  let ?t = "truncate_after zh idate"
  have ne: "?t \<noteq> []"
    using assms(2) by (auto simp: truncate_after_def filter_empty_conv)
  have st: "sorted (map fst ?t)"
    using assms(1) by (simp add: truncate_after_def sorted_filter)
  have lin: "last ?t \<in> set ?t"
    using ne by simp
  have g: "Z_gid zh idate = Inr (snd (last ?t))"
  proof -
    obtain e es where r: "rev ?t = e # es"
      using ne by (cases "rev ?t") auto
    then have "last ?t = e"
      by (metis list.sel(1) hd_rev)
    then show ?thesis
      unfolding Z_gid_def r by simp
  qed
  have mx: "\<forall>e' \<in> set zh. fst e' \<le> idate \<longrightarrow> fst e' \<le> fst (last ?t)"
  proof (intro ballI impI)
    fix e' assume "e' \<in> set zh" "fst e' \<le> idate"
    then have "e' \<in> set ?t" by (simp add: truncate_after_def)
    then show "fst e' \<le> fst (last ?t)"
      using sorted_last_max [OF st] by blast
  qed
  show ?thesis
    using lin g mx by (intro bexI [of _ "last ?t"]) (auto simp: truncate_after_def)
qed

lemma Z_gid_none_before:
  assumes "sorted (map fst zh)" and "zh \<noteq> []" and "\<not> (\<exists>e \<in> set zh. fst e \<le> idate)"
  shows "\<exists>e \<in> set zh. Z_gid zh idate = Inr (snd e) \<and> (\<forall>e' \<in> set zh. fst e \<le> fst e')"
proof -
  have em: "truncate_after zh idate = []"
    using assms(3) by (auto simp: truncate_after_def filter_empty_conv)
  obtain e es where z: "zh = e # es"
    using assms(2) by (cases zh) auto
  have "Z_gid zh idate = (case zh of [] \<Rightarrow> Inl IndexError | e # _ \<Rightarrow> Inr (snd e))"
    by (simp add: Z_gid_def em)
  then have "Z_gid zh idate = Inr (snd e)"
    by (simp add: z)
  moreover have "\<forall>e' \<in> set zh. fst e \<le> fst e'"
    using sorted_hd_min [OF assms(1)] z by auto
  ultimately show ?thesis using z by auto
qed

lemma Z_hdates_sorted: "sorted (map fst (Z_hdates flx_ins_w s))"
  by (simp add: Z_hdates_def)

lemma Z_hdates_set:
  "set (Z_hdates flx_ins_w s) = (\<lambda>r. (INSTOM_DATE r, INSTOM_ID r)) ` set (installations flx_ins_w s)"
  by (simp add: Z_hdates_def)

lemma Z_for_record:
  assumes "distinct (map INSTOM_ID flx_ins_w)" and "r \<in> set (installations flx_ins_w s)"
    and "Z_gid (Z_hdates flx_ins_w s) idate = Inr (INSTOM_ID r)"
  shows "Z_for flx_ins_w s idate = Inr (INSTOM_HEIGHT r)"
proof -
  have "r \<in> set flx_ins_w"
    using assms(2) by (simp add: installations_def)
  then have "filter (\<lambda>x. INSTOM_ID x = INSTOM_ID r) flx_ins_w = [r]"
    using filter_distinct_key [OF assms(1)] by blast
  then show ?thesis
    unfolding Z_for_def assms(3) by (simp add: item_single)
qed

lemma Z_for_installations:
  assumes "distinct (map INSTOM_ID flx_ins_w)"
  shows "((\<exists>r \<in> set (installations flx_ins_w s). INSTOM_DATE r \<le> idate) \<longrightarrow>
           (\<exists>r \<in> set (installations flx_ins_w s).
              Z_for flx_ins_w s idate = Inr (INSTOM_HEIGHT r) \<and> INSTOM_DATE r \<le> idate
              \<and> (\<forall>r' \<in> set (installations flx_ins_w s).
                    INSTOM_DATE r' \<le> idate \<longrightarrow> INSTOM_DATE r' \<le> INSTOM_DATE r)))
       \<and> (installations flx_ins_w s \<noteq> []
            \<and> \<not> (\<exists>r \<in> set (installations flx_ins_w s). INSTOM_DATE r \<le> idate) \<longrightarrow>
           (\<exists>r \<in> set (installations flx_ins_w s).
              Z_for flx_ins_w s idate = Inr (INSTOM_HEIGHT r)
              \<and> (\<forall>r' \<in> set (installations flx_ins_w s). INSTOM_DATE r \<le> INSTOM_DATE r')))"
proof (intro conjI impI)
  let ?zh = "Z_hdates flx_ins_w s"
  assume "\<exists>r \<in> set (installations flx_ins_w s). INSTOM_DATE r \<le> idate"
  then have "\<exists>e \<in> set ?zh. fst e \<le> idate"
    unfolding Z_hdates_set by auto
  from Z_gid_before [OF Z_hdates_sorted this] obtain e where
    e: "e \<in> set ?zh" "Z_gid ?zh idate = Inr (snd e)" "fst e \<le> idate"
    and mx: "\<forall>e' \<in> set ?zh. fst e' \<le> idate \<longrightarrow> fst e' \<le> fst e"
    by blast
  from e(1) obtain r where r: "r \<in> set (installations flx_ins_w s)"
    and er: "e = (INSTOM_DATE r, INSTOM_ID r)"
    unfolding Z_hdates_set by auto
  have "Z_for flx_ins_w s idate = Inr (INSTOM_HEIGHT r)"
    using Z_for_record [OF assms r] e(2) er by simp
  moreover have "INSTOM_DATE r \<le> idate"
    using e(3) er by simp
  moreover have "\<forall>r' \<in> set (installations flx_ins_w s).
      INSTOM_DATE r' \<le> idate \<longrightarrow> INSTOM_DATE r' \<le> INSTOM_DATE r"
    using mx er unfolding Z_hdates_set by auto
  ultimately show "\<exists>r \<in> set (installations flx_ins_w s).
      Z_for flx_ins_w s idate = Inr (INSTOM_HEIGHT r) \<and> INSTOM_DATE r \<le> idate
      \<and> (\<forall>r' \<in> set (installations flx_ins_w s).
            INSTOM_DATE r' \<le> idate \<longrightarrow> INSTOM_DATE r' \<le> INSTOM_DATE r)"
    using r by blast
next
  let ?zh = "Z_hdates flx_ins_w s"
  assume a: "installations flx_ins_w s \<noteq> []
     \<and> \<not> (\<exists>r \<in> set (installations flx_ins_w s). INSTOM_DATE r \<le> idate)"
  have "length ?zh = length (installations flx_ins_w s)"
    by (simp add: Z_hdates_def)
  then have ne: "?zh \<noteq> []"
    using a by (metis length_0_conv)
  have no: "\<not> (\<exists>e \<in> set ?zh. fst e \<le> idate)"
    using a unfolding Z_hdates_set by auto
  from Z_gid_none_before [OF Z_hdates_sorted ne no] obtain e where
    e: "e \<in> set ?zh" "Z_gid ?zh idate = Inr (snd e)"
    and mn: "\<forall>e' \<in> set ?zh. fst e \<le> fst e'"
    by blast
  from e(1) obtain r where r: "r \<in> set (installations flx_ins_w s)"
    and er: "e = (INSTOM_DATE r, INSTOM_ID r)"
    unfolding Z_hdates_set by auto
  have "Z_for flx_ins_w s idate = Inr (INSTOM_HEIGHT r)"
    using Z_for_record [OF assms r] e(2) er by simp
  moreover have "\<forall>r' \<in> set (installations flx_ins_w s). INSTOM_DATE r \<le> INSTOM_DATE r'"
    using mn er unfolding Z_hdates_set by auto
  ultimately show "\<exists>r \<in> set (installations flx_ins_w s).
      Z_for flx_ins_w s idate = Inr (INSTOM_HEIGHT r)
      \<and> (\<forall>r' \<in> set (installations flx_ins_w s). INSTOM_DATE r \<le> INSTOM_DATE r')"
    using r by blast
qed

lemma contains_iff: "contains pat str \<longleftrightarrow> (\<exists>p q. str = p @ pat @ q)"
proof (induction str)
  case Nil
  show ?case by auto
next
  case (Cons c cs)
  show ?case
  proof
    assume "contains pat (c # cs)"
    then consider "take (length pat) (c # cs) = pat" | "contains pat cs"
      by auto
    then show "\<exists>p q. c # cs = p @ pat @ q"
    proof cases
      case 1
      have "c # cs = [] @ take (length pat) (c # cs) @ drop (length pat) (c # cs)"
        by (simp only: append_Nil append_take_drop_id)
      then show ?thesis
        unfolding 1 by blast
    next
      case 2
      then obtain p q where "cs = p @ pat @ q"
        using Cons.IH by blast
      then have "c # cs = (c # p) @ pat @ q" by simp
      then show ?thesis by blast
    qed
  next
    assume "\<exists>p q. c # cs = p @ pat @ q"
    then obtain p q where e: "c # cs = p @ pat @ q" by blast
    show "contains pat (c # cs)"
    proof (cases p)
      case Nil
      then have "take (length pat) (c # cs) = pat"
        using e by simp
      then show ?thesis by simp
    next
      case (Cons a p')
      then have "cs = p' @ pat @ q"
        using e by simp
      then have "contains pat cs"
        using Cons.IH by blast
      then show ?thesis by simp
    qed
  qed
qed

lemma installations_set:
  "set (installations flx_ins_w s)
     = {r \<in> set flx_ins_w. contains s (INSTOM_MODEL r) \<and> INSTOM_TYPE r = ''Installation''}"
  by (simp add: installations_def)

lemma senstr_value:
  assumes "senstr flx_ins_w = Inr s"
  shows "s = (if \<exists>r \<in> set flx_ins_w. contains ''LI-COR'' (INSTOM_MODEL r) then ''LI-COR''
              else ''Campbell EC'')"
  using assms by (auto simp: senstr_def split: if_splits)

section \<open>Claims on the temporal matcher, the zonal radius and the heights\<close>

text \<open>
  C2. For a non-empty list of items and any target, \<open>nearest\<close> returns an item of the list
  whose distance to the target is minimal, and it is the first such item in input order:
  every item before it is strictly farther from the target, every item after it is at
  least as far.
\<close>

theorem nearest_first_minimum:
  fixes items :: "'a::linordered_idom list"
  assumes "items \<noteq> []"
  shows "\<exists>pre r post. nearest items target = Inr r \<and> items = pre @ r # post
     \<and> (\<forall>y \<in> set pre. \<bar>r - target\<bar> < \<bar>y - target\<bar>)
     \<and> (\<forall>y \<in> set post. \<bar>r - target\<bar> \<le> \<bar>y - target\<bar>)"
  unfolding nearest_def using py_min_split [OF assms] by blast

theorem nearest_first_minimum_witness:
  "[3, 7, 5 :: int] \<noteq> [] \<and> nearest [3, 7, 5 :: int] 6 = Inr 7
   \<and> (\<exists>pre r post. nearest [3, 7, 5 :: int] 6 = Inr r \<and> [3, 7, 5] = pre @ r # post
     \<and> (\<forall>y \<in> set pre. \<bar>r - 6\<bar> < \<bar>y - 6\<bar>)
     \<and> (\<forall>y \<in> set post. \<bar>r - 6\<bar> \<le> \<bar>y - 6\<bar>))"
  using nearest_first_minimum [of "[3, 7, 5 :: int]" 6]
  by (simp add: nearest_def py_min_def)

text \<open>
  C4. In zonal mode the radius of the buffer depends on the ecosystem class alone: 80 m
  for MF, DBF, EBF and ENF, 60 m for SAV and WSA, 50 m for GRA, OSH and CSH, 40 m for WET,
  30 m for CRO, and \<open>ValueError\<close> for every other class.
\<close>

theorem zonal_radius_by_class:
  "(ecosystem \<in> {''MF'', ''DBF'', ''EBF'', ''ENF''} \<longrightarrow> zonal_radius ecosystem = Inr 80)
   \<and> (ecosystem \<in> {''SAV'', ''WSA''} \<longrightarrow> zonal_radius ecosystem = Inr 60)
   \<and> (ecosystem \<in> {''GRA'', ''OSH'', ''CSH''} \<longrightarrow> zonal_radius ecosystem = Inr 50)
   \<and> (ecosystem = ''WET'' \<longrightarrow> zonal_radius ecosystem = Inr 40)
   \<and> (ecosystem = ''CRO'' \<longrightarrow> zonal_radius ecosystem = Inr 30)
   \<and> (ecosystem \<notin> {''MF'', ''DBF'', ''EBF'', ''ENF'', ''SAV'', ''WSA'', ''GRA'', ''OSH'', ''CSH'',
          ''WET'', ''CRO''} \<longrightarrow> zonal_radius ecosystem = Inl ValueError)"
  unfolding zonal_radius_def by auto

theorem zonal_radius_by_class_witness:
  "zonal_radius ''CRO'' = Inr 30 \<and> zonal_radius ''ENF'' = Inr 80 \<and> zonal_radius ''WSA'' = Inr 60
   \<and> zonal_radius ''OSH'' = Inr 50 \<and> zonal_radius ''WET'' = Inr 40
   \<and> zonal_radius ''URB'' = Inl ValueError"
  using zonal_radius_by_class [of "''CRO''"] zonal_radius_by_class [of "''ENF''"]
    zonal_radius_by_class [of "''WSA''"] zonal_radius_by_class [of "''OSH''"]
    zonal_radius_by_class [of "''WET''"] zonal_radius_by_class [of "''URB''"]
  by simp

text \<open>
  C5. \<open>contains\<close> is the substring test, and the sensor string is \<open>LI-COR\<close> when some
  model names it and \<open>Campbell EC\<close> otherwise. With the rows of the instrument table told
  apart by their group ids, the instrument height for an image date is the height of a row
  of that table whose model contains the sensor string and whose type is \<open>Installation\<close>,
  dated at or before the image date and not older than any other such row; when no such
  row is dated at or before the image date, it is the height of such a row that no other
  is older than. Rows of other instruments and rows of other types are never taken.
\<close>

theorem Z_last_installation_before:
  assumes "distinct (map INSTOM_ID flx_ins_w)" and "senstr flx_ins_w = Inr s"
  shows "(\<forall>pat str. contains pat str \<longleftrightarrow> (\<exists>p q. str = p @ pat @ q))
     \<and> s = (if \<exists>r \<in> set flx_ins_w. contains ''LI-COR'' (INSTOM_MODEL r) then ''LI-COR''
            else ''Campbell EC'')
     \<and> ((\<exists>r \<in> set flx_ins_w. contains s (INSTOM_MODEL r) \<and> INSTOM_TYPE r = ''Installation''
            \<and> INSTOM_DATE r \<le> idate) \<longrightarrow>
          (\<exists>r \<in> set flx_ins_w. contains s (INSTOM_MODEL r) \<and> INSTOM_TYPE r = ''Installation''
            \<and> Z_for flx_ins_w s idate = Inr (INSTOM_HEIGHT r) \<and> INSTOM_DATE r \<le> idate
            \<and> (\<forall>r' \<in> set flx_ins_w.
                  contains s (INSTOM_MODEL r') \<and> INSTOM_TYPE r' = ''Installation''
                  \<and> INSTOM_DATE r' \<le> idate \<longrightarrow> INSTOM_DATE r' \<le> INSTOM_DATE r)))
     \<and> ((\<exists>r \<in> set flx_ins_w. contains s (INSTOM_MODEL r) \<and> INSTOM_TYPE r = ''Installation'')
          \<and> \<not> (\<exists>r \<in> set flx_ins_w. contains s (INSTOM_MODEL r)
                \<and> INSTOM_TYPE r = ''Installation'' \<and> INSTOM_DATE r \<le> idate) \<longrightarrow>
          (\<exists>r \<in> set flx_ins_w. contains s (INSTOM_MODEL r) \<and> INSTOM_TYPE r = ''Installation''
            \<and> Z_for flx_ins_w s idate = Inr (INSTOM_HEIGHT r)
            \<and> (\<forall>r' \<in> set flx_ins_w.
                  contains s (INSTOM_MODEL r') \<and> INSTOM_TYPE r' = ''Installation''
                  \<longrightarrow> INSTOM_DATE r \<le> INSTOM_DATE r')))"
proof (intro conjI)
  show "\<forall>pat str. contains pat str \<longleftrightarrow> (\<exists>p q. str = p @ pat @ q)"
    using contains_iff by blast
next
  show "s = (if \<exists>r \<in> set flx_ins_w. contains ''LI-COR'' (INSTOM_MODEL r) then ''LI-COR''
            else ''Campbell EC'')"
    by (rule senstr_value [OF assms(2)])
next
  let ?I = "installations flx_ins_w s"
  note a = Z_for_installations [OF assms(1), of s idate, THEN conjunct1]
  show "(\<exists>r \<in> set flx_ins_w. contains s (INSTOM_MODEL r) \<and> INSTOM_TYPE r = ''Installation''
            \<and> INSTOM_DATE r \<le> idate) \<longrightarrow>
          (\<exists>r \<in> set flx_ins_w. contains s (INSTOM_MODEL r) \<and> INSTOM_TYPE r = ''Installation''
            \<and> Z_for flx_ins_w s idate = Inr (INSTOM_HEIGHT r) \<and> INSTOM_DATE r \<le> idate
            \<and> (\<forall>r' \<in> set flx_ins_w.
                  contains s (INSTOM_MODEL r') \<and> INSTOM_TYPE r' = ''Installation''
                  \<and> INSTOM_DATE r' \<le> idate \<longrightarrow> INSTOM_DATE r' \<le> INSTOM_DATE r))"
  proof
    assume "\<exists>r \<in> set flx_ins_w. contains s (INSTOM_MODEL r) \<and> INSTOM_TYPE r = ''Installation''
            \<and> INSTOM_DATE r \<le> idate"
    then have "\<exists>r \<in> set ?I. INSTOM_DATE r \<le> idate"
      unfolding installations_set by blast
    with a obtain r where r: "r \<in> set ?I" "Z_for flx_ins_w s idate = Inr (INSTOM_HEIGHT r)"
      "INSTOM_DATE r \<le> idate"
      "\<forall>r' \<in> set ?I. INSTOM_DATE r' \<le> idate \<longrightarrow> INSTOM_DATE r' \<le> INSTOM_DATE r"
      by blast
    show "\<exists>r \<in> set flx_ins_w. contains s (INSTOM_MODEL r) \<and> INSTOM_TYPE r = ''Installation''
            \<and> Z_for flx_ins_w s idate = Inr (INSTOM_HEIGHT r) \<and> INSTOM_DATE r \<le> idate
            \<and> (\<forall>r' \<in> set flx_ins_w.
                  contains s (INSTOM_MODEL r') \<and> INSTOM_TYPE r' = ''Installation''
                  \<and> INSTOM_DATE r' \<le> idate \<longrightarrow> INSTOM_DATE r' \<le> INSTOM_DATE r)"
      using r unfolding installations_set by blast
  qed
next
  let ?I = "installations flx_ins_w s"
  note b = Z_for_installations [OF assms(1), of s idate, THEN conjunct2]
  show "(\<exists>r \<in> set flx_ins_w. contains s (INSTOM_MODEL r) \<and> INSTOM_TYPE r = ''Installation'')
          \<and> \<not> (\<exists>r \<in> set flx_ins_w. contains s (INSTOM_MODEL r)
                \<and> INSTOM_TYPE r = ''Installation'' \<and> INSTOM_DATE r \<le> idate) \<longrightarrow>
          (\<exists>r \<in> set flx_ins_w. contains s (INSTOM_MODEL r) \<and> INSTOM_TYPE r = ''Installation''
            \<and> Z_for flx_ins_w s idate = Inr (INSTOM_HEIGHT r)
            \<and> (\<forall>r' \<in> set flx_ins_w.
                  contains s (INSTOM_MODEL r') \<and> INSTOM_TYPE r' = ''Installation''
                  \<longrightarrow> INSTOM_DATE r \<le> INSTOM_DATE r'))"
  proof
    assume h: "(\<exists>r \<in> set flx_ins_w. contains s (INSTOM_MODEL r)
            \<and> INSTOM_TYPE r = ''Installation'')
          \<and> \<not> (\<exists>r \<in> set flx_ins_w. contains s (INSTOM_MODEL r)
                \<and> INSTOM_TYPE r = ''Installation'' \<and> INSTOM_DATE r \<le> idate)"
    then have "set ?I \<noteq> {}"
      unfolding installations_set by blast
    then have ne: "?I \<noteq> []" by auto
    have no: "\<not> (\<exists>r \<in> set ?I. INSTOM_DATE r \<le> idate)"
      using h unfolding installations_set by blast
    from b ne no obtain r where r: "r \<in> set ?I"
      "Z_for flx_ins_w s idate = Inr (INSTOM_HEIGHT r)"
      "\<forall>r' \<in> set ?I. INSTOM_DATE r \<le> INSTOM_DATE r'"
      by blast
    show "\<exists>r \<in> set flx_ins_w. contains s (INSTOM_MODEL r) \<and> INSTOM_TYPE r = ''Installation''
            \<and> Z_for flx_ins_w s idate = Inr (INSTOM_HEIGHT r)
            \<and> (\<forall>r' \<in> set flx_ins_w.
                  contains s (INSTOM_MODEL r') \<and> INSTOM_TYPE r' = ''Installation''
                  \<longrightarrow> INSTOM_DATE r \<le> INSTOM_DATE r')"
      using r unfolding installations_set by blast
  qed
qed

theorem Z_last_installation_before_witness:
  "distinct (map INSTOM_ID
      [\<lparr>INSTOM_ID = 1, INSTOM_MODEL = ''LI-COR LI-7200'', INSTOM_TYPE = ''Installation'',
         INSTOM_DATE = 200, INSTOM_HEIGHT = 35\<rparr>,
       \<lparr>INSTOM_ID = 2, INSTOM_MODEL = ''LI-COR LI-7200'', INSTOM_TYPE = ''Installation'',
         INSTOM_DATE = 100, INSTOM_HEIGHT = 30\<rparr>,
       \<lparr>INSTOM_ID = 3, INSTOM_MODEL = ''Gill HS-50'', INSTOM_TYPE = ''Installation'',
         INSTOM_DATE = 120, INSTOM_HEIGHT = 50\<rparr>,
       \<lparr>INSTOM_ID = 4, INSTOM_MODEL = ''LI-COR LI-7200'', INSTOM_TYPE = ''Removal'',
         INSTOM_DATE = 140, INSTOM_HEIGHT = 99\<rparr>])
   \<and> senstr
      [\<lparr>INSTOM_ID = 1, INSTOM_MODEL = ''LI-COR LI-7200'', INSTOM_TYPE = ''Installation'',
         INSTOM_DATE = 200, INSTOM_HEIGHT = 35\<rparr>,
       \<lparr>INSTOM_ID = 2, INSTOM_MODEL = ''LI-COR LI-7200'', INSTOM_TYPE = ''Installation'',
         INSTOM_DATE = 100, INSTOM_HEIGHT = 30\<rparr>,
       \<lparr>INSTOM_ID = 3, INSTOM_MODEL = ''Gill HS-50'', INSTOM_TYPE = ''Installation'',
         INSTOM_DATE = 120, INSTOM_HEIGHT = 50\<rparr>,
       \<lparr>INSTOM_ID = 4, INSTOM_MODEL = ''LI-COR LI-7200'', INSTOM_TYPE = ''Removal'',
         INSTOM_DATE = 140, INSTOM_HEIGHT = 99\<rparr>] = Inr ''LI-COR''
   \<and> Z_for
      [\<lparr>INSTOM_ID = 1, INSTOM_MODEL = ''LI-COR LI-7200'', INSTOM_TYPE = ''Installation'',
         INSTOM_DATE = 200, INSTOM_HEIGHT = 35\<rparr>,
       \<lparr>INSTOM_ID = 2, INSTOM_MODEL = ''LI-COR LI-7200'', INSTOM_TYPE = ''Installation'',
         INSTOM_DATE = 100, INSTOM_HEIGHT = 30\<rparr>,
       \<lparr>INSTOM_ID = 3, INSTOM_MODEL = ''Gill HS-50'', INSTOM_TYPE = ''Installation'',
         INSTOM_DATE = 120, INSTOM_HEIGHT = 50\<rparr>,
       \<lparr>INSTOM_ID = 4, INSTOM_MODEL = ''LI-COR LI-7200'', INSTOM_TYPE = ''Removal'',
         INSTOM_DATE = 140, INSTOM_HEIGHT = 99\<rparr>] ''LI-COR'' 150 = Inr 30
   \<and> Z_for
      [\<lparr>INSTOM_ID = 1, INSTOM_MODEL = ''LI-COR LI-7200'', INSTOM_TYPE = ''Installation'',
         INSTOM_DATE = 200, INSTOM_HEIGHT = 35\<rparr>,
       \<lparr>INSTOM_ID = 2, INSTOM_MODEL = ''LI-COR LI-7200'', INSTOM_TYPE = ''Installation'',
         INSTOM_DATE = 100, INSTOM_HEIGHT = 30\<rparr>,
       \<lparr>INSTOM_ID = 3, INSTOM_MODEL = ''Gill HS-50'', INSTOM_TYPE = ''Installation'',
         INSTOM_DATE = 120, INSTOM_HEIGHT = 50\<rparr>,
       \<lparr>INSTOM_ID = 4, INSTOM_MODEL = ''LI-COR LI-7200'', INSTOM_TYPE = ''Removal'',
         INSTOM_DATE = 140, INSTOM_HEIGHT = 99\<rparr>] ''LI-COR'' 50 = Inr 30"
proof -
  let ?ins = "[\<lparr>INSTOM_ID = 1, INSTOM_MODEL = ''LI-COR LI-7200'', INSTOM_TYPE = ''Installation'',
         INSTOM_DATE = 200, INSTOM_HEIGHT = 35\<rparr>,
       \<lparr>INSTOM_ID = 2, INSTOM_MODEL = ''LI-COR LI-7200'', INSTOM_TYPE = ''Installation'',
         INSTOM_DATE = 100, INSTOM_HEIGHT = 30\<rparr>,
       \<lparr>INSTOM_ID = 3, INSTOM_MODEL = ''Gill HS-50'', INSTOM_TYPE = ''Installation'',
         INSTOM_DATE = 120, INSTOM_HEIGHT = 50\<rparr>,
       \<lparr>INSTOM_ID = 4, INSTOM_MODEL = ''LI-COR LI-7200'', INSTOM_TYPE = ''Removal'',
         INSTOM_DATE = 140, INSTOM_HEIGHT = 99\<rparr>]"
  have d: "distinct (map INSTOM_ID ?ins)"
    by simp
  have s: "senstr ?ins = Inr ''LI-COR''"
    by (simp add: senstr_def)
  have i: "installations ?ins ''LI-COR''
      = [\<lparr>INSTOM_ID = 1, INSTOM_MODEL = ''LI-COR LI-7200'', INSTOM_TYPE = ''Installation'',
         INSTOM_DATE = 200, INSTOM_HEIGHT = 35\<rparr>,
       \<lparr>INSTOM_ID = 2, INSTOM_MODEL = ''LI-COR LI-7200'', INSTOM_TYPE = ''Installation'',
         INSTOM_DATE = 100, INSTOM_HEIGHT = 30\<rparr>]"
    by (simp add: installations_def)
  have z1: "Z_for ?ins ''LI-COR'' 150 = Inr 30"
    unfolding Z_for_def Z_hdates_def i
    by (simp add: Z_gid_def truncate_after_def item_def)
  have z2: "Z_for ?ins ''LI-COR'' 50 = Inr 30"
    unfolding Z_for_def Z_hdates_def i
    by (simp add: Z_gid_def truncate_after_def item_def)
  note t1 = Z_last_installation_before [OF d s, of 150]
  note t2 = Z_last_installation_before [OF d s, of 50]
  show ?thesis
    using t1 t2 d s z1 z2 by blast
qed

text \<open>
  C8. For the ecosystem class WET the displacement height is 0.1 m for every image date,
  whatever the ancillary table holds, also when it holds no row at all; no error is
  raised on the way. With an instrument installed at 2 m and an empty ancillary table the
  heights come out as 1.9 m.
\<close>

theorem wetland_default_height:
  "(case resolve_D_source ''WET'' flx_anc of Inl e \<Rightarrow> Inl e | Inr src \<Rightarrow> D_for src idate)
     = Inr (1 / 10)
   \<and> resolve_D_source ''WET'' [] = Inr (D_fixed (1 / 10))
   \<and> load_ZM False ''WET'' []
       [\<lparr>INSTOM_ID = 1, INSTOM_MODEL = ''LI-COR LI-7200'', INSTOM_TYPE = ''Installation'',
          INSTOM_DATE = 100, INSTOM_HEIGHT = 2\<rparr>] [] [150]
     = Inr [19 / 10]"
  by (simp add: resolve_D_source_def D_for_def Let_def load_ZM_def senstr_def zm_entry_def
      Z_for_def Z_gid_def Z_hdates_def installations_def truncate_after_def item_def)

section \<open>Properties of the spectral window\<close>

lemma fnv_first_nearest:
  assumes "values \<noteq> []"
  shows "\<exists>i. fnv values target = Inr i \<and> i < length values
     \<and> (\<forall>j < length values. \<bar>values ! i - target\<bar> \<le> \<bar>values ! j - target\<bar>)
     \<and> (\<forall>j < i. \<bar>values ! i - target\<bar> < \<bar>values ! j - target\<bar>)"
proof -
  let ?n = "length values"
  let ?key = "\<lambda>i. \<bar>values ! i - target\<bar>"
  have "[0..<?n] \<noteq> []"
    using assms by simp
  from py_min_split [OF this, of ?key] obtain pre r post where
    m: "py_min ?key [0..<?n] = Inr r"
    and s: "[0..<?n] = pre @ r # post"
    and lt: "\<forall>y \<in> set pre. ?key r < ?key y"
    and le: "\<forall>y \<in> set post. ?key r \<le> ?key y"
    by blast
  have f: "fnv values target = Inr r"
    using assms m by (simp add: fnv_def)
  have mem: "set [0..<?n] = set pre \<union> {r} \<union> set post"
    unfolding s by auto
  have rn: "r < ?n"
    using mem by (metis UnCI atLeastLessThan_iff insertI1 set_upt)
  have srt: "sorted (pre @ r # post)"
    using sorted_upt [of 0 ?n] unfolding s .
  have post: "\<forall>y \<in> set post. r \<le> y"
    using srt by (simp add: sorted_append)
  have all: "\<forall>j < ?n. ?key r \<le> ?key j"
  proof (intro allI impI)
    fix j assume "j < ?n"
    then have "j \<in> set pre \<union> {r} \<union> set post"
      using mem by (metis atLeastLessThan_iff set_upt zero_le)
    then show "?key r \<le> ?key j"
      using lt le by auto
  qed
  have first: "\<forall>j < r. ?key r < ?key j"
  proof (intro allI impI)
    fix j assume j: "j < r"
    then have "j < ?n" using rn by simp
    then have "j \<in> set pre \<union> {r} \<union> set post"
      using mem by (metis atLeastLessThan_iff set_upt zero_le)
    then have "j \<in> set pre"
      using j post by auto
    then show "?key r < ?key j"
      using lt by blast
  qed
  show ?thesis
    using f rn all first by blast
qed

lemma py_slice_upt: "hi < n \<Longrightarrow> py_slice [0..<n] lo (hi + 1) = [lo..<hi + 1]"
  by (simp add: py_slice_def take_upt drop_upt)

lemma fnv_six:
  "fnv [4002 / 10, 550, 6998 / 10, 7103 / 10, 10005 / 10, 2400] 400 = Inr 0"
  "fnv [4002 / 10, 550, 6998 / 10, 7103 / 10, 10005 / 10, 2400] 700 = Inr 2"
  "fnv [4002 / 10, 550, 6998 / 10, 7103 / 10, 10005 / 10, 2400] 1000 = Inr 4"
  "fnv [4002 / 10, 550, 6998 / 10, 7103 / 10, 10005 / 10, 2400] 2500 = Inr 5"
proof -
  define w :: "real list" where "w = [4002 / 10, 550, 6998 / 10, 7103 / 10, 10005 / 10, 2400]"
  have n: "[0..<length w] = [0, 1, 2, 3, 4, 5]"
    by (simp add: w_def upt_rec)
  have "fnv w 400 = Inr 0"
    unfolding fnv_def n by (simp add: w_def py_min_def)
  then show "fnv [4002 / 10, 550, 6998 / 10, 7103 / 10, 10005 / 10, 2400] 400 = Inr 0"
    unfolding w_def .
  have "fnv w 700 = Inr 2"
    unfolding fnv_def n by (simp add: w_def py_min_def)
  then show "fnv [4002 / 10, 550, 6998 / 10, 7103 / 10, 10005 / 10, 2400] 700 = Inr 2"
    unfolding w_def .
  have "fnv w 1000 = Inr 4"
    unfolding fnv_def n by (simp add: w_def py_min_def)
  then show "fnv [4002 / 10, 550, 6998 / 10, 7103 / 10, 10005 / 10, 2400] 1000 = Inr 4"
    unfolding w_def .
  have "fnv w 2500 = Inr 5"
    unfolding fnv_def n by (simp add: w_def py_min_def)
  then show "fnv [4002 / 10, 550, 6998 / 10, 7103 / 10, 10005 / 10, 2400] 2500 = Inr 5"
    unfolding w_def .
qed

lemma retained_bands_from:
  assumes "fnv w 400 = Inr lo" and "nm_max r0 = Some u" and "fnv w u = Inr hi"
    and "py_slice [0..<length w] lo (hi + 1) = kept"
  shows "retained_bands w r0 = Inr kept"
  using assms by (simp add: retained_bands_def band_window_def nm_min_def)

lemma retained_six:
  "retained_bands [4002 / 10, 550, 6998 / 10, 7103 / 10, 10005 / 10, 2400] ''vis'' = Inr [0, 1, 2]"
  "retained_bands [4002 / 10, 550, 6998 / 10, 7103 / 10, 10005 / 10, 2400] ''vnir''
     = Inr [0, 1, 2, 3, 4]"
  "retained_bands [4002 / 10, 550, 6998 / 10, 7103 / 10, 10005 / 10, 2400] ''vswir''
     = Inr [0, 1, 2, 3, 4, 5]"
proof -
  let ?w = "[4002 / 10, 550, 6998 / 10, 7103 / 10, 10005 / 10, 2400 :: real]"
  show "retained_bands ?w ''vis'' = Inr [0, 1, 2]"
    by (rule retained_bands_from [OF fnv_six(1) _ fnv_six(2)])
      (simp_all add: nm_max_def py_slice_def upt_rec)
  show "retained_bands ?w ''vnir'' = Inr [0, 1, 2, 3, 4]"
    by (rule retained_bands_from [OF fnv_six(1) _ fnv_six(3)])
      (simp_all add: nm_max_def py_slice_def upt_rec)
  show "retained_bands ?w ''vswir'' = Inr [0, 1, 2, 3, 4, 5]"
    by (rule retained_bands_from [OF fnv_six(1) _ fnv_six(4)])
      (simp_all add: nm_max_def py_slice_def upt_rec)
qed

section \<open>Claims on the height check, the spectral window and the entry points\<close>

text \<open>
  C3, as the code has it. For an image date that has flux data, with the displacement
  height \<open>D\<close> and the instrument height \<open>Z\<close> resolved: an instrument strictly below
  the displacement height raises \<open>ValueError\<close>; otherwise no error is raised and the
  height handed to the footprint model is exactly \<open>Z - D\<close>, the two values neither
  swapped nor clamped.
\<close>

theorem height_check_strict:
  assumes "idate \<notin> set missd" and "D_for src idate = Inr D"
    and "Z_for flx_ins_w s idate = Inr Z"
  shows "(Z < D \<longrightarrow> zm_entry src flx_ins_w s missd idate = Inl ValueError)
     \<and> (D \<le> Z \<longrightarrow> zm_entry src flx_ins_w s missd idate = Inr (Z - D))"
  using assms by (simp add: zm_entry_def)

theorem height_check_strict_witness:
  "(150::int) \<notin> set [] \<and> D_for (D_fixed 3) 150 = Inr 3
   \<and> Z_for [\<lparr>INSTOM_ID = 1, INSTOM_MODEL = ''LI-COR LI-7200'', INSTOM_TYPE = ''Installation'',
         INSTOM_DATE = 100, INSTOM_HEIGHT = 2\<rparr>] ''LI-COR'' 150 = Inr 2
   \<and> zm_entry (D_fixed 3) [\<lparr>INSTOM_ID = 1, INSTOM_MODEL = ''LI-COR LI-7200'',
         INSTOM_TYPE = ''Installation'', INSTOM_DATE = 100, INSTOM_HEIGHT = 2\<rparr>] ''LI-COR'' [] 150
       = Inl ValueError
   \<and> D_for (D_fixed 1) 150 = Inr 1
   \<and> zm_entry (D_fixed 1) [\<lparr>INSTOM_ID = 1, INSTOM_MODEL = ''LI-COR LI-7200'',
         INSTOM_TYPE = ''Installation'', INSTOM_DATE = 100, INSTOM_HEIGHT = 2\<rparr>] ''LI-COR'' [] 150
       = Inr 1"
proof -
  let ?ins = "[\<lparr>INSTOM_ID = 1, INSTOM_MODEL = ''LI-COR LI-7200'',
         INSTOM_TYPE = ''Installation'', INSTOM_DATE = 100, INSTOM_HEIGHT = 2\<rparr>]"
  have m: "(150::int) \<notin> set []" by simp
  have d3: "D_for (D_fixed 3) 150 = Inr 3" by (simp add: D_for_def)
  have d1: "D_for (D_fixed 1) 150 = Inr 1" by (simp add: D_for_def)
  have z: "Z_for ?ins ''LI-COR'' 150 = Inr 2"
    by (simp add: Z_for_def Z_gid_def Z_hdates_def installations_def truncate_after_def item_def)
  show ?thesis
    using m d3 d1 z height_check_strict [OF m d3 z] height_check_strict [OF m d1 z]
    by simp
qed

text \<open>
  C3, as stated, asks for the error also when the two heights are equal. An instrument
  installed at 2 m over a canopy of 2 m passes the test \<^verbatim>\<open>if D > Z\<close> and gives the
  height 0; so does a wetland instrument at the default displacement height of 0.1 m, through
  the whole of the height resolution.
\<close>

theorem equal_heights_pass_counterexample:
  "Z_for [\<lparr>INSTOM_ID = 1, INSTOM_MODEL = ''LI-COR LI-7200'', INSTOM_TYPE = ''Installation'',
         INSTOM_DATE = 100, INSTOM_HEIGHT = 2\<rparr>] ''LI-COR'' 150 = Inr 2
   \<and> D_for (D_fixed 2) 150 = Inr 2
   \<and> (2::real) \<le> 2
   \<and> zm_entry (D_fixed 2) [\<lparr>INSTOM_ID = 1, INSTOM_MODEL = ''LI-COR LI-7200'',
         INSTOM_TYPE = ''Installation'', INSTOM_DATE = 100, INSTOM_HEIGHT = 2\<rparr>] ''LI-COR'' [] 150
       = Inr 0
   \<and> load_ZM False ''WET'' []
       [\<lparr>INSTOM_ID = 1, INSTOM_MODEL = ''LI-COR LI-7200'', INSTOM_TYPE = ''Installation'',
          INSTOM_DATE = 100, INSTOM_HEIGHT = 1 / 10\<rparr>] [] [150]
     = Inr [0]"
  by (simp add: zm_entry_def D_for_def Z_for_def Z_gid_def Z_hdates_def installations_def
      truncate_after_def item_def load_ZM_def resolve_D_source_def senstr_def)

text \<open>
  C6. The range codes \<open>vis\<close>, \<open>vnir\<close> and \<open>vswir\<close> ask for the windows ending at 700,
  1000 and 2500 nm. For a sensor with at least one wavelength and any of the three codes,
  the retained band indices run from the first index whose wavelength is nearest to 400 nm
  through the first index whose wavelength is nearest to the upper bound of the requested
  window, inclusive. On the wavelengths 400.2, 550.0, 699.8 and 710.3 the visible window
  keeps exactly the indices 0, 1 and 2.
\<close>

theorem spectral_window_nearest_lookup:
  assumes "wl \<noteq> []"
    and "(r0, u) \<in> {(''vis'', 700), (''vnir'', 1000), (''vswir'', 2500)}"
  shows "(\<exists>lo hi. retained_bands wl r0 = Inr [lo..<hi + 1]
       \<and> lo < length wl \<and> hi < length wl
       \<and> (\<forall>j < length wl. \<bar>wl ! lo - 400\<bar> \<le> \<bar>wl ! j - 400\<bar>)
       \<and> (\<forall>j < lo. \<bar>wl ! lo - 400\<bar> < \<bar>wl ! j - 400\<bar>)
       \<and> (\<forall>j < length wl. \<bar>wl ! hi - u\<bar> \<le> \<bar>wl ! j - u\<bar>)
       \<and> (\<forall>j < hi. \<bar>wl ! hi - u\<bar> < \<bar>wl ! j - u\<bar>))
     \<and> retained_bands [4002 / 10, 550, 6998 / 10, 7103 / 10] ''vis'' = Inr [0, 1, 2]"
proof (intro conjI)
  have nm: "nm_max r0 = Some u"
    using assms(2) by (auto simp: nm_max_def)
  from fnv_first_nearest [OF assms(1), of 400] obtain lo where
    lo: "fnv wl 400 = Inr lo" "lo < length wl"
      "\<forall>j < length wl. \<bar>wl ! lo - 400\<bar> \<le> \<bar>wl ! j - 400\<bar>"
      "\<forall>j < lo. \<bar>wl ! lo - 400\<bar> < \<bar>wl ! j - 400\<bar>"
    by blast
  from fnv_first_nearest [OF assms(1), of u] obtain hi where
    hi: "fnv wl u = Inr hi" "hi < length wl"
      "\<forall>j < length wl. \<bar>wl ! hi - u\<bar> \<le> \<bar>wl ! j - u\<bar>"
      "\<forall>j < hi. \<bar>wl ! hi - u\<bar> < \<bar>wl ! j - u\<bar>"
    by blast
  have "band_window wl r0 = Inr (lo, hi + 1)"
    using lo(1) hi(1) nm by (simp add: band_window_def nm_min_def)
  then have "retained_bands wl r0 = Inr [lo..<hi + 1]"
    using py_slice_upt [OF hi(2)] by (simp add: retained_bands_def)
  then show "\<exists>lo hi. retained_bands wl r0 = Inr [lo..<hi + 1]
       \<and> lo < length wl \<and> hi < length wl
       \<and> (\<forall>j < length wl. \<bar>wl ! lo - 400\<bar> \<le> \<bar>wl ! j - 400\<bar>)
       \<and> (\<forall>j < lo. \<bar>wl ! lo - 400\<bar> < \<bar>wl ! j - 400\<bar>)
       \<and> (\<forall>j < length wl. \<bar>wl ! hi - u\<bar> \<le> \<bar>wl ! j - u\<bar>)
       \<and> (\<forall>j < hi. \<bar>wl ! hi - u\<bar> < \<bar>wl ! j - u\<bar>)"
    using lo hi by blast
next
  define w :: "real list" where "w = [4002 / 10, 550, 6998 / 10, 7103 / 10]"
  have n: "[0..<length w] = [0, 1, 2, 3]"
    by (simp add: w_def upt_rec)
  have a: "fnv w 400 = Inr 0"
    unfolding fnv_def n by (simp add: w_def py_min_def)
  have b: "fnv w 700 = Inr 2"
    unfolding fnv_def n by (simp add: w_def py_min_def)
  have c: "\<And>a b c d :: nat. py_slice [a, b, c, d] 0 3 = [a, b, c]"
    by (simp add: py_slice_def)
  have "retained_bands w ''vis'' = Inr [0, 1, 2]"
    unfolding retained_bands_def band_window_def nm_min_def n a
    by (simp add: nm_max_def b c)
  then show "retained_bands [4002 / 10, 550, 6998 / 10, 7103 / 10] ''vis'' = Inr [0, 1, 2]"
    unfolding w_def .
qed

theorem spectral_window_nearest_lookup_witness:
  "[4002 / 10, 550, 6998 / 10, 7103 / 10, 10005 / 10, 2400 :: real] \<noteq> []
   \<and> retained_bands [4002 / 10, 550, 6998 / 10, 7103 / 10, 10005 / 10, 2400] ''vis''
       = Inr [0, 1, 2]
   \<and> retained_bands [4002 / 10, 550, 6998 / 10, 7103 / 10, 10005 / 10, 2400] ''vnir''
       = Inr [0, 1, 2, 3, 4]
   \<and> retained_bands [4002 / 10, 550, 6998 / 10, 7103 / 10, 10005 / 10, 2400] ''vswir''
       = Inr [0, 1, 2, 3, 4, 5]
   \<and> retained_bands [4002 / 10, 550, 6998 / 10, 7103 / 10] ''vis'' = Inr [0, 1, 2]"
proof -
  let ?w = "[4002 / 10, 550, 6998 / 10, 7103 / 10, 10005 / 10, 2400 :: real]"
  have ne: "?w \<noteq> []" by simp
  have m1: "(''vis'', 700) \<in> {(''vis'', 700), (''vnir'', 1000), (''vswir'', 2500 :: real)}"
    by simp
  have m2: "(''vnir'', 1000) \<in> {(''vis'', 700), (''vnir'', 1000), (''vswir'', 2500 :: real)}"
    by simp
  have m3: "(''vswir'', 2500) \<in> {(''vis'', 700), (''vnir'', 1000), (''vswir'', 2500 :: real)}"
    by simp
  note t1 = spectral_window_nearest_lookup [OF ne m1]
  note t2 = spectral_window_nearest_lookup [OF ne m2]
  note t3 = spectral_window_nearest_lookup [OF ne m3]
  show ?thesis
    using ne t1 t2 t3 retained_six by simp
qed

text \<open>
  C10. With upwelling radiance requested, every range code is replaced by \<open>vis\<close> before
  anything else happens: the window handed to the cropper is 400 to 700 nm and never
  undefined, the processing record says \<open>vis\<close>, and so does the name of the saved or
  loaded file.
\<close>

theorem upw_forces_visible_window:
  "normalize_sr True sr0 = ''vis''
   \<and> crop_window True sr0 = Inr (400, 700)
   \<and> sr (set_ptype sr0 zonal True aggr0) = ''vis''
   \<and> fname sensor (set_ptype sr0 zonal True aggr0)
       = ''all_sites_'' @ sensor @ ''_vis_'' @ (if zonal then ''zst'' else ''ffp'') @ ''_upw_''
          @ aggr0 @ ''.gpkg''"
  by (simp add: normalize_sr_def crop_window_def nm_max_def nm_min_def set_ptype_def fname_def)

section \<open>Properties of the cropper\<close>

lemma crop_loop_nth:
  "crop_loop local_mask na_val lo hi upw xs = Inr res \<Longrightarrow>
     length res = length xs
     \<and> (\<forall>i < length xs. crop_image local_mask na_val lo hi upw (fst (xs ! i)) (snd (xs ! i))
           = Inr (res ! i))"
proof (induction xs arbitrary: res)
  case Nil
  then show ?case by simp
next
  case (Cons x xs)
  from Cons.prems obtain a as where
    a: "crop_image local_mask na_val lo hi upw (fst x) (snd x) = Inr a"
    and as: "crop_loop local_mask na_val lo hi upw xs = Inr as"
    and r: "res = a # as"
    by (auto split: sum.splits)
  from Cons.IH [OF as] have l: "length as = length xs"
    and n: "\<forall>i < length xs. crop_image local_mask na_val lo hi upw (fst (xs ! i)) (snd (xs ! i))
           = Inr (as ! i)"
    by simp_all
  show ?case
  proof (intro conjI allI impI)
    show "length res = length (x # xs)"
      using l r by simp
    fix i assume "i < length (x # xs)"
    then show "crop_image local_mask na_val lo hi upw (fst ((x # xs) ! i)) (snd ((x # xs) ! i))
           = Inr (res ! i)"
      using a n r by (cases i) simp_all
  qed
qed

lemma band_rows_nth:
  "band_rows names pxs = Inr rows \<Longrightarrow>
     length rows = length pxs \<and> (\<forall>i < length pxs. band_row names (pxs ! i) = Inr (rows ! i))"
proof (induction pxs arbitrary: rows)
  case Nil
  then show ?case by simp
next
  case (Cons px pxs)
  from Cons.prems obtain row rest where
    a: "band_row names px = Inr row"
    and as: "band_rows names pxs = Inr rest"
    and r: "rows = row # rest"
    by (auto split: sum.splits)
  from Cons.IH [OF as] have l: "length rest = length pxs"
    and n: "\<forall>i < length pxs. band_row names (pxs ! i) = Inr (rest ! i)"
    by simp_all
  show ?case
  proof (intro conjI allI impI)
    show "length rows = length (px # pxs)"
      using l r by simp
    fix i assume "i < length (px # pxs)"
    then show "band_row names ((px # pxs) ! i) = Inr (rows ! i)"
      using a n r by (cases i) simp_all
  qed
qed

lemma band_row_names: "band_row names px = Inr row \<Longrightarrow> map fst row = names"
  by (cases px) (auto simp: band_row_def comp_def split: if_splits)

lemma crop_image_skips_missing_par:
  assumes "map_of (fluxes r) ''PAR'' = Some sentinel"
  shows "crop_image local_mask na_val lo hi True r cube_i = Inr (Scalar sentinel, fz_clouds r)"
  using assms by (simp add: crop_image_def)

lemma crop_hsi_2_geoms_parts:
  assumes "crop_hsi_2_geoms local_mask na_val r0 upw gdf imgs = Inr out"
  shows "\<exists>lo hi res rows. band_window (fst (hd imgs)) r0 = Inr (lo, hi)
     \<and> crop_loop local_mask na_val lo hi upw (zip gdf (map snd imgs)) = Inr res
     \<and> band_rows (sr_band_ix (length (py_slice (fst (hd imgs)) lo hi))) (map fst res) = Inr rows
     \<and> out = zip (map (\<lambda>(r, c). r\<lparr>fz_clouds := c\<rparr>) (zip gdf (map snd res))) rows"
  using assms unfolding crop_hsi_2_geoms_def
  by (auto simp: Let_def split: list.splits sum.splits prod.splits)

lemma retained_bands_window:
  "band_window w r0 = Inr (lo, hi) \<Longrightarrow>
     \<exists>kept. retained_bands w r0 = Inr kept \<and> length kept = length (py_slice w lo hi)"
  by (simp add: retained_bands_def py_slice_def)

lemma str_nat_small: "k < 10 \<Longrightarrow> str_nat k = [digit k]"
  by (subst str_nat.simps) simp

lemma str_nat_step: "10 \<le> k \<Longrightarrow> str_nat k = str_nat (k div 10) @ [digit (k mod 10)]"
  by (subst str_nat.simps) simp

lemma digit_0: "digit 0 = CHR ''0''"
  by (simp add: digit_def)

lemma zfill_str_nat:
  assumes "k < 1000"
  shows "zfill 3 (str_nat k) = [digit (k div 100), digit (k div 10 mod 10), digit (k mod 10)]"
proof -
  consider "k < 10" | "10 \<le> k" "k < 100" | "100 \<le> k"
    by linarith
  then show ?thesis
  proof cases
    case 1
    then show ?thesis
      by (simp add: str_nat_small zfill_def digit_0 numeral_2_eq_2)
  next
    case 2
    then have "k div 10 < 10" by simp
    then have "str_nat k = [digit (k div 10), digit (k mod 10)]"
      using 2 by (simp add: str_nat_step str_nat_small)
    moreover have "k div 100 = 0" "k div 10 mod 10 = k div 10"
      using 2 by simp_all
    ultimately show ?thesis
      by (simp add: zfill_def digit_0)
  next
    case 3
    have d: "k div 10 div 10 = k div 100"
      by (simp add: div_mult2_eq [symmetric])
    have "10 \<le> k div 10" using 3 by simp
    moreover have "k div 100 < 10" using assms by simp
    ultimately have "str_nat k = [digit (k div 100), digit (k div 10 mod 10), digit (k mod 10)]"
      using 3 by (simp add: str_nat_step str_nat_small d)
    then show ?thesis
      by (simp add: zfill_def)
  qed
qed

lemma sr_band_ix_length: "length (sr_band_ix nbands) = nbands"
  by (simp add: sr_band_ix_def)

lemma sr_band_ix_nth:
  assumes "i < nbands" and "i + 1 < 1000"
  shows "sr_band_ix nbands ! i
     = [CHR ''b'', digit ((i + 1) div 100), digit ((i + 1) div 10 mod 10), digit ((i + 1) mod 10)]"
proof -
  have "sr_band_ix nbands ! i = ''b'' @ zfill 3 (str_nat (i + 1))"
    unfolding sr_band_ix_def using assms(1) by (simp add: nth_map_upt del: upt_Suc)
  then show ?thesis
    using zfill_str_nat [OF assms(2)] by simp
qed

lemma sr_band_ix_2: "sr_band_ix (Suc (Suc 0)) = [''b001'', ''b002'']"
proof -
  have l: "length (sr_band_ix (Suc (Suc 0))) = Suc (Suc 0)"
    by (rule sr_band_ix_length)
  have a: "sr_band_ix (Suc (Suc 0)) ! 0 = ''b001''"
    using sr_band_ix_nth [of 0 "Suc (Suc 0)"] by (simp add: digit_def)
  have b: "sr_band_ix (Suc (Suc 0)) ! 1 = ''b002''"
    using sr_band_ix_nth [of 1 "Suc (Suc 0)"] by (simp add: digit_def)
  show ?thesis
    using l a b by (auto simp: list_eq_iff_nth_eq less_Suc_eq)
qed

lemma fnv_two:
  "fnv [450, 650] 400 = Inr 0" "fnv [450, 650] 700 = Inr 1"
proof -
  have u: "[0..<length [450, 650 :: real]] = [0, 1]"
    by (simp add: upt_rec)
  show "fnv [450, 650] 400 = Inr 0"
    unfolding fnv_def u by (simp add: py_min_def)
  show "fnv [450, 650] 700 = Inr 1"
    unfolding fnv_def u by (simp add: py_min_def)
qed

lemma window_two: "band_window [450, 650] ''vis'' = Inr (0, 2)"
  unfolding band_window_def nm_min_def fnv_two by (simp add: nm_max_def fnv_two)

lemma blength_error: "blength overwrite jobs = Inl e \<Longrightarrow> e = ValueError"
  by (induction jobs) (auto split: if_splits sum.splits)

lemma blength_set:
  "blength overwrite jobs = Inr bl \<Longrightarrow>
     set bl = {length (wls j) | j. j \<in> set jobs \<and> (overwrite \<or> \<not> crop_exists j) \<and> n_paths j \<noteq> 0}"
proof (induction jobs arbitrary: bl)
  case Nil
  then show ?case by simp
next
  case (Cons j js)
  show ?case
  proof (cases "(overwrite \<or> \<not> crop_exists j) \<and> n_paths j \<noteq> 0")
    case True
    with Cons.prems obtain bl' where b: "blength overwrite js = Inr bl'"
      and e: "bl = length (wls j) # bl'"
      by (auto split: if_splits sum.splits)
    show ?thesis
      unfolding e using Cons.IH [OF b] True by auto
  next
    case False
    with Cons.prems have b: "blength overwrite js = Inr bl"
      by (auto split: if_splits)
    show ?thesis
      using Cons.IH [OF b] False by auto
  qed
qed

lemma band_count_check_rejects:
  assumes "j1 \<in> set jobs" and "j2 \<in> set jobs"
    and "(overwrite \<or> \<not> crop_exists j1) \<and> n_paths j1 \<noteq> 0"
    and "(overwrite \<or> \<not> crop_exists j2) \<and> n_paths j2 \<noteq> 0"
    and "length (wls j1) \<noteq> length (wls j2)"
  shows "band_count_check overwrite jobs = Inl ValueError"
proof (cases "blength overwrite jobs")
  case (Inl e)
  then show ?thesis
    using blength_error [OF Inl] by (simp add: band_count_check_def)
next
  case (Inr bl)
  have "length (wls j1) \<in> set bl" "length (wls j2) \<in> set bl"
    unfolding blength_set [OF Inr] using assms by auto
  then have "\<not> card (set bl) \<le> Suc 0"
    using assms(5) by (metis List.finite_set card_le_Suc0_iff_eq)
  then have "1 < length (remdups bl)"
    by (simp add: length_remdups_card_conv)
  then show ?thesis
    using Inr by (simp add: band_count_check_def)
qed

lemma crop_hsi_2_geoms_columns:
  assumes "crop_hsi_2_geoms local_mask na_val r0 upw gdf imgs = Inr out"
  shows "\<exists>kept. retained_bands (fst (hd imgs)) r0 = Inr kept
     \<and> (\<forall>row \<in> set out. map fst (snd row) = sr_band_ix (length kept))"
proof -
  from crop_hsi_2_geoms_parts [OF assms] obtain lo hi res rows where
    w: "band_window (fst (hd imgs)) r0 = Inr (lo, hi)"
    and b: "band_rows (sr_band_ix (length (py_slice (fst (hd imgs)) lo hi))) (map fst res)
        = Inr rows"
    and o: "out = zip (map (\<lambda>(r, c). r\<lparr>fz_clouds := c\<rparr>) (zip gdf (map snd res))) rows"
    by blast
  from retained_bands_window [OF w] obtain kept where
    k: "retained_bands (fst (hd imgs)) r0 = Inr kept"
      "length kept = length (py_slice (fst (hd imgs)) lo hi)"
    by blast
  have "\<forall>row \<in> set out. map fst (snd row) = sr_band_ix (length kept)"
  proof
    fix row assume "row \<in> set out"
    then have "snd row \<in> set rows"
      unfolding o by (metis prod.collapse set_zip_rightD)
    then obtain i where i: "i < length rows" "rows ! i = snd row"
      by (auto simp: in_set_conv_nth)
    then have "band_row (sr_band_ix (length kept)) (map fst res ! i) = Inr (snd row)"
      using band_rows_nth [OF b] k(2) by simp
    then show "map fst (snd row) = sr_band_ix (length kept)"
      by (rule band_row_names)
  qed
  then show ?thesis using k(1) by blast
qed

section \<open>Claims on the cropper\<close>

text \<open>
  C7. In upwelling-radiance mode, a row whose PAR is the sentinel is skipped: whatever
  the raster mask and the cube are, the round of the loop returns the bare sentinel
  without cropping or multiplying, the row comes out unchanged, and every band column of
  its output row holds the sentinel, one column per retained wavelength.
\<close>

theorem upw_missing_par_left_missing:
  assumes "crop_hsi_2_geoms local_mask na_val r0 True gdf imgs = Inr out"
    and "length imgs = length gdf" and "i < length gdf"
    and "map_of (fluxes (gdf ! i)) ''PAR'' = Some sentinel"
  shows "i < length out
     \<and> fst (out ! i) = gdf ! i
     \<and> (\<exists>kept. retained_bands (fst (hd imgs)) r0 = Inr kept
          \<and> snd (out ! i) = map (\<lambda>n. (n, Some sentinel)) (sr_band_ix (length kept)))
     \<and> (\<forall>m c lo hi. crop_image m na_val lo hi True (gdf ! i) c
          = Inr (Scalar sentinel, fz_clouds (gdf ! i)))"
proof -
  from crop_hsi_2_geoms_parts [OF assms(1)] obtain lo hi res rows where
    w: "band_window (fst (hd imgs)) r0 = Inr (lo, hi)"
    and l: "crop_loop local_mask na_val lo hi True (zip gdf (map snd imgs)) = Inr res"
    and b: "band_rows (sr_band_ix (length (py_slice (fst (hd imgs)) lo hi))) (map fst res)
        = Inr rows"
    and o: "out = zip (map (\<lambda>(r, c). r\<lparr>fz_clouds := c\<rparr>) (zip gdf (map snd res))) rows"
    by blast
  let ?names = "sr_band_ix (length (py_slice (fst (hd imgs)) lo hi))"
  have lz: "length (zip gdf (map snd imgs)) = length gdf"
    using assms(2) by simp
  have lr: "length res = length gdf"
    using crop_loop_nth [OF l] lz by simp
  have "crop_image local_mask na_val lo hi True (fst (zip gdf (map snd imgs) ! i))
      (snd (zip gdf (map snd imgs) ! i)) = Inr (res ! i)"
    using crop_loop_nth [OF l] lz assms(3) by simp
  moreover have "fst (zip gdf (map snd imgs) ! i) = gdf ! i"
    using assms(2,3) by simp
  ultimately have ri: "res ! i = (Scalar sentinel, fz_clouds (gdf ! i))"
    using crop_image_skips_missing_par [OF assms(4)] by simp
  have lrows: "length rows = length gdf"
    using band_rows_nth [OF b] lr by simp
  have "band_row ?names (map fst res ! i) = Inr (rows ! i)"
    using band_rows_nth [OF b] lr assms(3) by simp
  then have rowi: "rows ! i = map (\<lambda>n. (n, Some sentinel)) ?names"
    using ri lr assms(3) by (simp add: band_row_def)
  have lo: "i < length out"
    unfolding o using lr lrows assms(3) by simp
  have oi: "out ! i = ((gdf ! i)\<lparr>fz_clouds := snd (res ! i)\<rparr>, rows ! i)"
    unfolding o using lr lrows assms(3) by simp
  have f: "fst (out ! i) = gdf ! i"
    using oi ri by simp
  from retained_bands_window [OF w] obtain kept where
    k: "retained_bands (fst (hd imgs)) r0 = Inr kept"
      "length kept = length (py_slice (fst (hd imgs)) lo hi)"
    by blast
  have s: "snd (out ! i) = map (\<lambda>n. (n, Some sentinel)) (sr_band_ix (length kept))"
    using oi rowi k(2) by simp
  show ?thesis
    using lo f k(1) s crop_image_skips_missing_par [OF assms(4)] by blast
qed

theorem upw_missing_par_left_missing_witness:
  "crop_hsi_2_geoms (\<lambda>c g. Inr c) None ''vis'' True
      [\<lparr>fz_name = ''DE-Geb'', fz_dataTakeID = ''T1'', fz_clouds = [],
        fz_geometry = Some (Buffer 30), fluxes = [(''PAR'', sentinel)]\<rparr>]
      [([450, 650], [[Some 1], [Some 2]])]
    = Inr [(\<lparr>fz_name = ''DE-Geb'', fz_dataTakeID = ''T1'', fz_clouds = [],
        fz_geometry = Some (Buffer 30), fluxes = [(''PAR'', sentinel)]\<rparr>,
        [(''b001'', Some sentinel), (''b002'', Some sentinel)])]
   \<and> map_of (fluxes \<lparr>fz_name = ''DE-Geb'', fz_dataTakeID = ''T1'', fz_clouds = [],
        fz_geometry = Some (Buffer 30), fluxes = [(''PAR'', sentinel)]\<rparr>) ''PAR'' = Some sentinel
   \<and> retained_bands [450, 650] ''vis'' = Inr [0, 1]"
proof -
  let ?r = "\<lparr>fz_name = ''DE-Geb'', fz_dataTakeID = ''T1'', fz_clouds = [],
        fz_geometry = Some (Buffer 30), fluxes = [(''PAR'', sentinel)]\<rparr>"
  let ?imgs = "[([450, 650], [[Some 1], [Some 2]])] :: (real list \<times> cube) list"
  have c: "crop_hsi_2_geoms (\<lambda>c g. Inr c) None ''vis'' True [?r] ?imgs
    = Inr [(?r, [(''b001'', Some sentinel), (''b002'', Some sentinel)])]"
    by (simp add: crop_hsi_2_geoms_def window_two py_slice_def crop_image_def sr_band_ix_2
        band_row_def)
  have l: "length ?imgs = length [?r]" by simp
  have i: "0 < length [?r]" by simp
  have p: "map_of (fluxes ([?r] ! 0)) ''PAR'' = Some sentinel" by simp
  have k: "retained_bands [450, 650] ''vis'' = Inr [0, 1]"
    by (simp add: retained_bands_def window_two py_slice_def upt_rec)
  show ?thesis
    using c k upw_missing_par_left_missing [OF c l i p] by simp
qed

text \<open>
  C9, as the code has it. The band columns are as many as the band count, the column of
  band \<open>i + 1\<close> is named \<open>b\<close> followed by the three decimal digits of \<open>i + 1\<close> as long
  as the ordinal is below 1000, and the first is \<open>b001\<close>; every row that the cropper
  emits carries exactly these columns, one per wavelength retained in the window; and the
  first crop rejects with \<open>ValueError\<close> a site of which two images decoded in that call
  differ in their number of wavelengths.
\<close>

theorem band_columns_and_band_count_check:
  "length (sr_band_ix nbands) = nbands
   \<and> (\<forall>i < nbands. i + 1 < 1000 \<longrightarrow>
        sr_band_ix nbands ! i
          = [CHR ''b'', digit ((i + 1) div 100), digit ((i + 1) div 10 mod 10),
             digit ((i + 1) mod 10)])
   \<and> (0 < nbands \<longrightarrow> sr_band_ix nbands ! 0 = ''b001'')
   \<and> (crop_hsi_2_geoms local_mask na_val r0 upw gdf imgs = Inr out \<longrightarrow>
        (\<exists>kept. retained_bands (fst (hd imgs)) r0 = Inr kept
          \<and> (\<forall>row \<in> set out. map fst (snd row) = sr_band_ix (length kept))))
   \<and> ((\<exists>j1 \<in> set jobs. \<exists>j2 \<in> set jobs.
          (overwrite \<or> \<not> crop_exists j1) \<and> n_paths j1 \<noteq> 0
          \<and> (overwrite \<or> \<not> crop_exists j2) \<and> n_paths j2 \<noteq> 0
          \<and> length (wls j1) \<noteq> length (wls j2)) \<longrightarrow>
        band_count_check overwrite jobs = Inl ValueError)"
proof (intro conjI allI impI)
  show "length (sr_band_ix nbands) = nbands"
    by (rule sr_band_ix_length)
next
  fix i assume "i < nbands" "i + 1 < 1000"
  then show "sr_band_ix nbands ! i
      = [CHR ''b'', digit ((i + 1) div 100), digit ((i + 1) div 10 mod 10),
         digit ((i + 1) mod 10)]"
    by (rule sr_band_ix_nth)
next
  assume "0 < nbands"
  then show "sr_band_ix nbands ! 0 = ''b001''"
    using sr_band_ix_nth [of 0 nbands] by (simp add: digit_def)
next
  assume "crop_hsi_2_geoms local_mask na_val r0 upw gdf imgs = Inr out"
  then show "\<exists>kept. retained_bands (fst (hd imgs)) r0 = Inr kept
      \<and> (\<forall>row \<in> set out. map fst (snd row) = sr_band_ix (length kept))"
    by (rule crop_hsi_2_geoms_columns)
next
  assume "\<exists>j1 \<in> set jobs. \<exists>j2 \<in> set jobs.
          (overwrite \<or> \<not> crop_exists j1) \<and> n_paths j1 \<noteq> 0
          \<and> (overwrite \<or> \<not> crop_exists j2) \<and> n_paths j2 \<noteq> 0
          \<and> length (wls j1) \<noteq> length (wls j2)"
  then show "band_count_check overwrite jobs = Inl ValueError"
    using band_count_check_rejects by blast
qed

theorem band_columns_and_band_count_check_witness:
  "0 < (2::nat) \<and> sr_band_ix 2 ! 0 = ''b001'' \<and> sr_band_ix 2 ! 1 = ''b002''
   \<and> crop_hsi_2_geoms (\<lambda>c g. Inr c) None ''vis'' False
        [\<lparr>fz_name = ''DE-Geb'', fz_dataTakeID = ''T1'', fz_clouds = [],
          fz_geometry = Some (Buffer 30), fluxes = [(''PAR'', 100)]\<rparr>]
        [([450, 650], [[Some 1], [Some 2]])]
      = Inr [(\<lparr>fz_name = ''DE-Geb'', fz_dataTakeID = ''T1'', fz_clouds = [],
          fz_geometry = Some (Buffer 30), fluxes = [(''PAR'', 100)]\<rparr>,
          [(''b001'', Some 1), (''b002'', Some 2)])]
   \<and> retained_bands [450, 650] ''vis'' = Inr [0, 1]
   \<and> band_count_check True
        [\<lparr>crop_exists = True, n_paths = 1, wls = [450, 650]\<rparr>,
         \<lparr>crop_exists = False, n_paths = 1, wls = [450, 550, 650]\<rparr>] = Inl ValueError"
proof -
  let ?r = "\<lparr>fz_name = ''DE-Geb'', fz_dataTakeID = ''T1'', fz_clouds = [],
        fz_geometry = Some (Buffer 30), fluxes = [(''PAR'', 100)]\<rparr>"
  let ?imgs = "[([450, 650], [[Some 1], [Some 2]])] :: (real list \<times> cube) list"
  let ?out = "[(?r, [(''b001'', Some 1), (''b002'', Some 2)])]"
  let ?jobs = "[\<lparr>crop_exists = True, n_paths = 1, wls = [450, 650]\<rparr>,
         \<lparr>crop_exists = False, n_paths = 1, wls = [450, 550, 650]\<rparr>]"
  have c: "crop_hsi_2_geoms (\<lambda>c g. Inr c) None ''vis'' False [?r] ?imgs = Inr ?out"
    by (simp add: crop_hsi_2_geoms_def window_two py_slice_def crop_image_def sr_band_ix_2
        band_row_def mask_na_def mask_negative_def nanmean_def mean_def sentinel_def)
  have k: "retained_bands [450, 650] ''vis'' = Inr [0, 1]"
    by (simp add: retained_bands_def window_two py_slice_def upt_rec)
  have p: "0 < (2::nat)" by simp
  have j: "\<exists>j1 \<in> set ?jobs. \<exists>j2 \<in> set ?jobs.
          (True \<or> \<not> crop_exists j1) \<and> n_paths j1 \<noteq> 0
          \<and> (True \<or> \<not> crop_exists j2) \<and> n_paths j2 \<noteq> 0
          \<and> length (wls j1) \<noteq> length (wls j2)"
    by simp
  show ?thesis
    using c k p j
      band_columns_and_band_count_check [of 2 "\<lambda>c g. Inr c" None "''vis''" False "[?r]" ?imgs
        ?out ?jobs True]
    by (simp add: digit_def)
qed

text \<open>
  C9, as stated, has every run with differing band counts rejected. An image whose crop
  file exists is not decoded again unless \<open>overwrite\<close> is set, so its two wavelengths are
  not compared with the three of a newly decoded image; the cropper then takes the window
  from the first image and emits both rows.
\<close>

theorem mixed_band_counts_pass_counterexample:
  "length (wls \<lparr>crop_exists = True, n_paths = 1, wls = [450, 650]\<rparr>)
     \<noteq> length (wls \<lparr>crop_exists = False, n_paths = 1, wls = [450, 550, 650]\<rparr>)
   \<and> band_count_check False
        [\<lparr>crop_exists = True, n_paths = 1, wls = [450, 650]\<rparr>,
         \<lparr>crop_exists = False, n_paths = 1, wls = [450, 550, 650]\<rparr>] = Inr [3]
   \<and> crop_hsi_2_geoms (\<lambda>c g. Inr c) None ''vis'' False
        [\<lparr>fz_name = ''DE-Geb'', fz_dataTakeID = ''T1'', fz_clouds = [],
          fz_geometry = Some (Buffer 30), fluxes = [(''PAR'', 100)]\<rparr>,
         \<lparr>fz_name = ''DE-Geb'', fz_dataTakeID = ''T2'', fz_clouds = [],
          fz_geometry = Some (Buffer 30), fluxes = [(''PAR'', 100)]\<rparr>]
        [([450, 650], [[Some 1], [Some 2]]),
         ([450, 550, 650], [[Some 1], [Some 2], [Some 3]])]
      = Inr [(\<lparr>fz_name = ''DE-Geb'', fz_dataTakeID = ''T1'', fz_clouds = [],
              fz_geometry = Some (Buffer 30), fluxes = [(''PAR'', 100)]\<rparr>,
              [(''b001'', Some 1), (''b002'', Some 2)]),
             (\<lparr>fz_name = ''DE-Geb'', fz_dataTakeID = ''T2'', fz_clouds = [],
              fz_geometry = Some (Buffer 30), fluxes = [(''PAR'', 100)]\<rparr>,
              [(''b001'', Some 1), (''b002'', Some 2)])]"
  by (simp add: band_count_check_def crop_hsi_2_geoms_def window_two py_slice_def
      crop_image_def sr_band_ix_2 band_row_def mask_na_def mask_negative_def nanmean_def
      mean_def sentinel_def)

section \<open>Properties of the footprint builder\<close>

lemma set_clouds_length: "length (set_clouds db dt v) = length db"
  by (simp add: set_clouds_def)

lemma set_clouds_nth:
  "j < length db \<Longrightarrow>
     date (set_clouds db dt v ! j) = date (db ! j)
     \<and> dataTakeID (set_clouds db dt v ! j) = dataTakeID (db ! j)
     \<and> era_pblh (set_clouds db dt v ! j) = era_pblh (db ! j)
     \<and> clouds (set_clouds db dt v ! j) = (if dataTakeID (db ! j) = dt then v else clouds (db ! j))"
  by (simp add: set_clouds_def)

lemma geom_step_cases:
  assumes "geom_step ffp zonal zgeom era fluxvars missd icos_subset db idx zm = Inr (db1, g, p)"
  shows "db1 = db \<or> db1 = set_clouds db (dataTakeID (db ! idx)) ''icos_na''"
  using assms unfolding geom_step_def
  by (auto simp: Let_def split: if_splits selection.splits sum.splits)

lemma geom_step_keeps:
  assumes "geom_step ffp zonal zgeom era fluxvars missd icos_subset db idx zm = Inr (db1, g, p)"
  shows "length db1 = length db
     \<and> (\<forall>j < length db. date (db1 ! j) = date (db ! j)
           \<and> dataTakeID (db1 ! j) = dataTakeID (db ! j)
           \<and> era_pblh (db1 ! j) = era_pblh (db ! j)
           \<and> (clouds (db ! j) = ''icos_na'' \<longrightarrow> clouds (db1 ! j) = ''icos_na''))"
proof -
  from geom_step_cases [OF assms] show ?thesis
  proof
    assume "db1 = db"
    then show ?thesis by simp
  next
    assume d: "db1 = set_clouds db (dataTakeID (db ! idx)) ''icos_na''"
    show ?thesis
      unfolding d by (simp add: set_clouds_length set_clouds_nth)
  qed
qed

lemma geom_loop_keeps:
  "geom_loop ffp zonal zgeom era fluxvars missd icos_subset db items = Inr (db2, res) \<Longrightarrow>
     length db2 = length db \<and> length res = length items
     \<and> (\<forall>j < length db. date (db2 ! j) = date (db ! j)
           \<and> dataTakeID (db2 ! j) = dataTakeID (db ! j)
           \<and> era_pblh (db2 ! j) = era_pblh (db ! j)
           \<and> (clouds (db ! j) = ''icos_na'' \<longrightarrow> clouds (db2 ! j) = ''icos_na''))"
proof (induction items arbitrary: db res)
  case Nil
  then show ?case by simp
next
  case (Cons im ims)
  from Cons.prems obtain db1 g p res' where
    s: "geom_step ffp zonal zgeom era fluxvars missd icos_subset db (fst im) (snd im)
        = Inr (db1, g, p)"
    and l: "geom_loop ffp zonal zgeom era fluxvars missd icos_subset db1 ims = Inr (db2, res')"
    and r: "res = (g, p) # res'"
    by (auto split: sum.splits prod.splits)
  note k1 = geom_step_keeps [OF s]
  note k2 = Cons.IH [OF l]
  show ?case
    using k1 k2 r by simp
qed

lemma geom_step_na:
  assumes "squeeze_rows icos_subset (date (db ! idx)) = Row s0"
    and "series_loc (if era then s0 @ [(''PBLH'', era_pblh (db ! idx))] else s0) required_fields
        = Inr vals"
    and "sentinel \<in> snd ` set vals \<or> date (db ! idx) \<in> set missd"
  shows "geom_step ffp False zgeom era fluxvars missd icos_subset db idx zm
     = Inr (set_clouds db (dataTakeID (db ! idx)) ''icos_na'', None, Row (zeros fluxvars))"
  using assms unfolding geom_step_def by (auto simp: Let_def)

lemma geom_loop_na:
  "geom_loop ffp False zgeom era fluxvars missd icos_subset db items = Inr (db2, res) \<Longrightarrow>
   i < length items \<Longrightarrow> fst (items ! i) < length db \<Longrightarrow>
   squeeze_rows icos_subset (date (db ! fst (items ! i))) = Row s0 \<Longrightarrow>
   series_loc (if era then s0 @ [(''PBLH'', era_pblh (db ! fst (items ! i)))] else s0)
       required_fields = Inr vals \<Longrightarrow>
   sentinel \<in> snd ` set vals \<or> date (db ! fst (items ! i)) \<in> set missd \<Longrightarrow>
   res ! i = (None, Row (zeros fluxvars)) \<and> clouds (db2 ! fst (items ! i)) = ''icos_na''"
proof (induction items arbitrary: db res i)
  case Nil
  then show ?case by simp
next
  case (Cons im ims)
  from Cons.prems(1) obtain db1 g p res' where
    s: "geom_step ffp False zgeom era fluxvars missd icos_subset db (fst im) (snd im)
        = Inr (db1, g, p)"
    and l: "geom_loop ffp False zgeom era fluxvars missd icos_subset db1 ims = Inr (db2, res')"
    and r: "res = (g, p) # res'"
    by (auto split: sum.splits prod.splits)
  note k1 = geom_step_keeps [OF s]
  note k2 = geom_loop_keeps [OF l]
  show ?case
  proof (cases i)
    case 0
    then have e0: "(im # ims) ! i = im" by simp
    have idx: "fst im < length db"
      using Cons.prems(3) unfolding e0 .
    have sq: "squeeze_rows icos_subset (date (db ! fst im)) = Row s0"
      using Cons.prems(4) unfolding e0 .
    have sl: "series_loc (if era then s0 @ [(''PBLH'', era_pblh (db ! fst im))] else s0)
          required_fields = Inr vals"
      using Cons.prems(5) unfolding e0 .
    have na: "sentinel \<in> snd ` set vals \<or> date (db ! fst im) \<in> set missd"
      using Cons.prems(6) unfolding e0 .
    from geom_step_na [OF sq sl na, of ffp zgeom fluxvars "snd im"] s
    have d: "db1 = set_clouds db (dataTakeID (db ! fst im)) ''icos_na''"
      and g: "g = None" and p: "p = Row (zeros fluxvars)"
      by simp_all
    have "clouds (db1 ! fst im) = ''icos_na''"
      unfolding d using set_clouds_nth [OF idx] by simp
    then have "clouds (db2 ! fst im) = ''icos_na''"
      using k2 k1 idx by simp
    then show ?thesis
      using 0 r g p by simp
  next
    case (Suc k)
    then have ki: "k < length ims" and e: "(im # ims) ! i = ims ! k"
      using Cons.prems(2) by simp_all
    have idx: "fst (ims ! k) < length db"
      using Cons.prems(3) e by simp
    then have idx1: "fst (ims ! k) < length db1"
      using k1 by simp
    have dd: "date (db1 ! fst (ims ! k)) = date (db ! fst (ims ! k))"
      and ee: "era_pblh (db1 ! fst (ims ! k)) = era_pblh (db ! fst (ims ! k))"
      using k1 idx by simp_all
    have sq: "squeeze_rows icos_subset (date (db1 ! fst (ims ! k))) = Row s0"
      using Cons.prems(4) unfolding e dd .
    have sl: "series_loc (if era then s0 @ [(''PBLH'', era_pblh (db1 ! fst (ims ! k)))] else s0)
          required_fields = Inr vals"
      using Cons.prems(5) unfolding e ee .
    have na: "sentinel \<in> snd ` set vals \<or> date (db1 ! fst (ims ! k)) \<in> set missd"
      using Cons.prems(6) unfolding e dd .
    from Cons.IH [OF l ki idx1 sq sl na] show ?thesis
      using Suc r e by simp
  qed
qed

lemma build_records_nth:
  "build_records fluxvars db xs = Inr recs \<Longrightarrow>
     length recs = length xs
     \<and> (\<forall>i < length xs. fz_clouds (recs ! i) = clouds (db ! fst (xs ! i))
           \<and> fz_geometry (recs ! i) = fst (snd (xs ! i))
           \<and> flux_of fluxvars (snd (snd (xs ! i))) = Inr (fluxes (recs ! i)))"
proof (induction xs arbitrary: recs)
  case Nil
  then show ?case by simp
next
  case (Cons x xs)
  from Cons.prems obtain fl rest where
    f: "flux_of fluxvars (snd (snd x)) = Inr fl"
    and b: "build_records fluxvars db xs = Inr rest"
    and r: "recs = \<lparr>fz_name = name (db ! fst x), fz_dataTakeID = dataTakeID (db ! fst x),
                   fz_clouds = clouds (db ! fst x), fz_geometry = fst (snd x),
                   fluxes = fl\<rparr> # rest"
    by (auto split: sum.splits)
  note ih = Cons.IH [OF b]
  show ?case
  proof (intro conjI allI impI)
    show "length recs = length (x # xs)"
      using ih r by simp
    fix i assume i: "i < length (x # xs)"
    show "fz_clouds (recs ! i) = clouds (db ! fst ((x # xs) ! i))"
      using i ih r by (cases i) simp_all
    show "fz_geometry (recs ! i) = fst (snd ((x # xs) ! i))"
      using i ih r by (cases i) simp_all
    show "flux_of fluxvars (snd (snd ((x # xs) ! i))) = Inr (fluxes (recs ! i))"
      using i ih r f by (cases i) simp_all
  qed
qed

lemma flux_of_zeros:
  assumes "flux_of fluxvars (Row (zeros fluxvars)) = Inr fl"
  shows "fst ` set fl = set fluxvars \<and> (\<forall>e \<in> set fl. snd e = 0)"
proof -
  have fl: "fl = concat (map (\<lambda>l. filter (\<lambda>e. fst e = l) (zeros fluxvars)) fluxvars)"
    using assms by (simp add: flux_of_def series_loc_def split: if_splits)
  have z: "set (zeros fluxvars) = (\<lambda>v. (v, 0)) ` set fluxvars"
    by (simp add: zeros_def)
  have "set fl = (\<lambda>v. (v, 0)) ` set fluxvars"
    unfolding fl using z by auto
  then show ?thesis by (force simp: image_image)
qed

lemma model_geoms_parts:
  assumes "model_geoms ffp False ecosystem era fluxvars missd icos_subset img_db idxs ZM
      = Inr (db2, recs)"
  shows "\<exists>res. geom_loop ffp False None era fluxvars missd icos_subset img_db (zip idxs ZM)
        = Inr (db2, res)
     \<and> build_records fluxvars db2 (zip idxs res) = Inr recs"
  using assms unfolding model_geoms_def
  by (auto split: sum.splits prod.splits if_splits)

lemma geom_step_rows:
  assumes "geom_step ffp False zgeom era fluxvars missd icos_subset db idx zm = Inr x"
  shows "\<exists>s0 vals. squeeze_rows icos_subset (date (db ! idx)) = Row s0
     \<and> series_loc (if era then s0 @ [(''PBLH'', era_pblh (db ! idx))] else s0) required_fields
         = Inr vals"
  using assms unfolding geom_step_def
  by (auto simp: Let_def split: selection.splits sum.splits if_splits)

lemma geom_loop_rows:
  "geom_loop ffp False zgeom era fluxvars missd icos_subset db items = Inr (db2, res) \<Longrightarrow>
   i < length items \<Longrightarrow> fst (items ! i) < length db \<Longrightarrow>
   \<exists>s0 vals. squeeze_rows icos_subset (date (db ! fst (items ! i))) = Row s0
     \<and> series_loc (if era then s0 @ [(''PBLH'', era_pblh (db ! fst (items ! i)))] else s0)
         required_fields = Inr vals"
proof (induction items arbitrary: db res i)
  case Nil
  then show ?case by simp
next
  case (Cons im ims)
  from Cons.prems(1) obtain db1 g p res' where
    s: "geom_step ffp False zgeom era fluxvars missd icos_subset db (fst im) (snd im)
        = Inr (db1, g, p)"
    and l: "geom_loop ffp False zgeom era fluxvars missd icos_subset db1 ims = Inr (db2, res')"
    by (auto split: sum.splits prod.splits)
  note k1 = geom_step_keeps [OF s]
  show ?case
  proof (cases i)
    case 0
    then have e0: "(im # ims) ! i = im" by simp
    show ?thesis
      unfolding e0 by (rule geom_step_rows [OF s])
  next
    case (Suc k)
    then have ki: "k < length ims" and e: "(im # ims) ! i = ims ! k"
      using Cons.prems(2) by simp_all
    have idx: "fst (ims ! k) < length db"
      using Cons.prems(3) e by simp
    then have idx1: "fst (ims ! k) < length db1"
      using k1 by simp
    have dd: "date (db1 ! fst (ims ! k)) = date (db ! fst (ims ! k))"
      and ee: "era_pblh (db1 ! fst (ims ! k)) = era_pblh (db ! fst (ims ! k))"
      using k1 idx by simp_all
    from Cons.IH [OF l ki idx1] show ?thesis
      unfolding e dd ee .
  qed
qed

lemma geom_loop_zonal:
  "geom_loop ffp True zgeom era fluxvars missd icos_subset db items
     = Inr (db, map (\<lambda>im. (zgeom, squeeze_rows icos_subset (date (db ! fst im)))) items)"
  by (induction items) (simp_all add: geom_step_def Let_def)

lemma model_geoms_zonal_parts:
  assumes "model_geoms ffp True ecosystem era fluxvars missd icos_subset img_db idxs ZM
      = Inr (dbz, recz)"
  shows "\<exists>zr. zonal_radius ecosystem = Inr zr \<and> dbz = img_db
     \<and> build_records fluxvars img_db
          (zip idxs (map (\<lambda>im. (Some (Buffer zr),
              squeeze_rows icos_subset (date (img_db ! fst im)))) (zip idxs ZM))) = Inr recz"
  using assms unfolding model_geoms_def geom_loop_zonal
  by (auto split: sum.splits if_splits)

section \<open>Claims on the footprint builder\<close>

text \<open>
  C1, as the code has it. Take an image of the inventory and a run of the builder, with
  one height per image, that returns. In footprint mode the date of the image then selects
  exactly one matched record, and that record holds the six required fields; when one of
  them is the sentinel, or the date is among the dates without flux data, the row of the
  image has the null geometry, its quality annotation is \<open>icos_na\<close> in the returned frame
  and in the inventory, and its productivity variables are exactly the requested ones,
  each zero; the round of the loop for such an image neither raises nor calls the
  footprint model, whatever model and height it is given. In zonal mode the test for
  missing data is never reached: the inventory is unchanged, the image has the buffer of
  the ecosystem class and its old annotation, and its productivity variables are those of
  the rows its date selects.
\<close>

theorem missing_flux_gives_null_geometry:
  assumes "length ZM = length idxs" and "i < length idxs" and "idxs ! i < length img_db"
  shows "(model_geoms ffp False ecosystem era fluxvars missd icos_subset img_db idxs ZM
        = Inr (db2, recs) \<longrightarrow>
      (\<exists>s0 vals. squeeze_rows icos_subset (date (img_db ! (idxs ! i))) = Row s0
         \<and> series_loc (if era then s0 @ [(''PBLH'', era_pblh (img_db ! (idxs ! i)))] else s0)
              required_fields = Inr vals
         \<and> (sentinel \<in> snd ` set vals \<or> date (img_db ! (idxs ! i)) \<in> set missd \<longrightarrow>
               fz_geometry (recs ! i) = None
               \<and> fz_clouds (recs ! i) = ''icos_na''
               \<and> clouds (db2 ! (idxs ! i)) = ''icos_na''
               \<and> fst ` set (fluxes (recs ! i)) = set fluxvars
               \<and> (\<forall>e \<in> set (fluxes (recs ! i)). snd e = 0)
               \<and> (\<forall>m z g. geom_step m False g era fluxvars missd icos_subset img_db (idxs ! i) z
                     = Inr (set_clouds img_db (dataTakeID (img_db ! (idxs ! i))) ''icos_na'',
                            None, Row (zeros fluxvars))))))
     \<and> (model_geoms ffp True ecosystem era fluxvars missd icos_subset img_db idxs ZM
        = Inr (dbz, recz) \<longrightarrow>
      dbz = img_db
      \<and> (\<exists>zr. zonal_radius ecosystem = Inr zr \<and> fz_geometry (recz ! i) = Some (Buffer zr))
      \<and> fz_clouds (recz ! i) = clouds (img_db ! (idxs ! i))
      \<and> flux_of fluxvars (squeeze_rows icos_subset (date (img_db ! (idxs ! i))))
           = Inr (fluxes (recz ! i)))"
proof (intro conjI impI)
  assume run: "model_geoms ffp False ecosystem era fluxvars missd icos_subset img_db idxs ZM
        = Inr (db2, recs)"
  from model_geoms_parts [OF run] obtain res where
    l: "geom_loop ffp False None era fluxvars missd icos_subset img_db (zip idxs ZM)
        = Inr (db2, res)"
    and b: "build_records fluxvars db2 (zip idxs res) = Inr recs"
    by blast
  let ?items = "zip idxs ZM"
  have li: "i < length ?items"
    using assms(1,2) by simp
  have fi: "fst (?items ! i) = idxs ! i"
    using assms(1,2) by simp
  have ix: "fst (?items ! i) < length img_db"
    unfolding fi by (rule assms(3))
  from geom_loop_rows [OF l li ix] obtain s0 vals where
    sq: "squeeze_rows icos_subset (date (img_db ! (idxs ! i))) = Row s0"
    and sl: "series_loc (if era then s0 @ [(''PBLH'', era_pblh (img_db ! (idxs ! i)))] else s0)
        required_fields = Inr vals"
    unfolding fi by blast
  have lr: "length res = length idxs"
    using geom_loop_keeps [OF l] assms(1) by simp
  have lz: "i < length (zip idxs res)"
    using lr assms(2) by simp
  have zi: "zip idxs res ! i = (idxs ! i, res ! i)"
    using lr assms(2) by simp
  from build_records_nth [OF b] lz have
    c: "fz_clouds (recs ! i) = clouds (db2 ! fst (zip idxs res ! i))"
    and g: "fz_geometry (recs ! i) = fst (snd (zip idxs res ! i))"
    and f: "flux_of fluxvars (snd (snd (zip idxs res ! i))) = Inr (fluxes (recs ! i))"
    by simp_all
  have main: "sentinel \<in> snd ` set vals \<or> date (img_db ! (idxs ! i)) \<in> set missd \<longrightarrow>
       fz_geometry (recs ! i) = None
       \<and> fz_clouds (recs ! i) = ''icos_na''
       \<and> clouds (db2 ! (idxs ! i)) = ''icos_na''
       \<and> fst ` set (fluxes (recs ! i)) = set fluxvars
       \<and> (\<forall>e \<in> set (fluxes (recs ! i)). snd e = 0)
       \<and> (\<forall>m z g. geom_step m False g era fluxvars missd icos_subset img_db (idxs ! i) z
             = Inr (set_clouds img_db (dataTakeID (img_db ! (idxs ! i))) ''icos_na'',
                    None, Row (zeros fluxvars)))"
  proof
    assume na: "sentinel \<in> snd ` set vals \<or> date (img_db ! (idxs ! i)) \<in> set missd"
    have r: "res ! i = (None, Row (zeros fluxvars))
        \<and> clouds (db2 ! fst (?items ! i)) = ''icos_na''"
    proof (rule geom_loop_na [OF l li ix])
      show "squeeze_rows icos_subset (date (img_db ! fst (?items ! i))) = Row s0"
        unfolding fi by (rule sq)
      show "series_loc
          (if era then s0 @ [(''PBLH'', era_pblh (img_db ! fst (?items ! i)))] else s0)
          required_fields = Inr vals"
        unfolding fi by (rule sl)
      show "sentinel \<in> snd ` set vals \<or> date (img_db ! fst (?items ! i)) \<in> set missd"
        unfolding fi by (rule na)
    qed
    have g0: "fz_geometry (recs ! i) = None"
      using g zi r by simp
    have c0: "clouds (db2 ! (idxs ! i)) = ''icos_na''"
      using r fi by simp
    have c1: "fz_clouds (recs ! i) = ''icos_na''"
      using c zi c0 by simp
    have "flux_of fluxvars (Row (zeros fluxvars)) = Inr (fluxes (recs ! i))"
      using f zi r by simp
    note z = flux_of_zeros [OF this]
    show "fz_geometry (recs ! i) = None
       \<and> fz_clouds (recs ! i) = ''icos_na''
       \<and> clouds (db2 ! (idxs ! i)) = ''icos_na''
       \<and> fst ` set (fluxes (recs ! i)) = set fluxvars
       \<and> (\<forall>e \<in> set (fluxes (recs ! i)). snd e = 0)
       \<and> (\<forall>m z g. geom_step m False g era fluxvars missd icos_subset img_db (idxs ! i) z
             = Inr (set_clouds img_db (dataTakeID (img_db ! (idxs ! i))) ''icos_na'',
                    None, Row (zeros fluxvars)))"
      using g0 c1 c0 z geom_step_na [OF sq sl na] by blast
  qed
  show "\<exists>s0 vals. squeeze_rows icos_subset (date (img_db ! (idxs ! i))) = Row s0
         \<and> series_loc (if era then s0 @ [(''PBLH'', era_pblh (img_db ! (idxs ! i)))] else s0)
              required_fields = Inr vals
         \<and> (sentinel \<in> snd ` set vals \<or> date (img_db ! (idxs ! i)) \<in> set missd \<longrightarrow>
               fz_geometry (recs ! i) = None
               \<and> fz_clouds (recs ! i) = ''icos_na''
               \<and> clouds (db2 ! (idxs ! i)) = ''icos_na''
               \<and> fst ` set (fluxes (recs ! i)) = set fluxvars
               \<and> (\<forall>e \<in> set (fluxes (recs ! i)). snd e = 0)
               \<and> (\<forall>m z g. geom_step m False g era fluxvars missd icos_subset img_db (idxs ! i) z
                     = Inr (set_clouds img_db (dataTakeID (img_db ! (idxs ! i))) ''icos_na'',
                            None, Row (zeros fluxvars))))"
    using sq sl main by blast
next
  assume run: "model_geoms ffp True ecosystem era fluxvars missd icos_subset img_db idxs ZM
        = Inr (dbz, recz)"
  from model_geoms_zonal_parts [OF run] obtain zr where
    zr: "zonal_radius ecosystem = Inr zr" and d: "dbz = img_db"
    and b: "build_records fluxvars img_db
          (zip idxs (map (\<lambda>im. (Some (Buffer zr),
              squeeze_rows icos_subset (date (img_db ! fst im)))) (zip idxs ZM))) = Inr recz"
    by blast
  let ?res = "map (\<lambda>im. (Some (Buffer zr),
              squeeze_rows icos_subset (date (img_db ! fst im)))) (zip idxs ZM)"
  have lz: "i < length (zip idxs ?res)"
    using assms(1,2) by simp
  have zi: "zip idxs ?res ! i
      = (idxs ! i, Some (Buffer zr), squeeze_rows icos_subset (date (img_db ! (idxs ! i))))"
    using assms(1,2) by simp
  from build_records_nth [OF b] lz have
    c: "fz_clouds (recz ! i) = clouds (img_db ! fst (zip idxs ?res ! i))"
    and g: "fz_geometry (recz ! i) = fst (snd (zip idxs ?res ! i))"
    and f: "flux_of fluxvars (snd (snd (zip idxs ?res ! i))) = Inr (fluxes (recz ! i))"
    by blast+
  show "dbz = img_db" by (rule d)
  show "\<exists>zr. zonal_radius ecosystem = Inr zr \<and> fz_geometry (recz ! i) = Some (Buffer zr)"
    using zr g unfolding zi by simp
  show "fz_clouds (recz ! i) = clouds (img_db ! (idxs ! i))"
    using c unfolding zi by simp
  show "flux_of fluxvars (squeeze_rows icos_subset (date (img_db ! (idxs ! i))))
           = Inr (fluxes (recz ! i))"
    using f unfolding zi by simp
qed

theorem missing_flux_gives_null_geometry_witness:
  "model_geoms (\<lambda>zm s. Inr []) False ''CRO'' False [''NEE_VUT_50_QC'', ''SW_IN_F_QC''] []
      [(10, [(''WS'', 2), (''PBLH'', sentinel), (''MO_LENGTH'', 5), (''V_SIGMA'', 1),
             (''USTAR'', 1), (''WD'', 180), (''NEE_VUT_50_QC'', 0), (''SW_IN_F_QC'', 1)])]
      [\<lparr>name = ''DE-Geb'', date = 10, dataTakeID = ''T1'', clouds = [], era_pblh = 0\<rparr>]
      [0] [3]
    = Inr ([\<lparr>name = ''DE-Geb'', date = 10, dataTakeID = ''T1'', clouds = ''icos_na'',
              era_pblh = 0\<rparr>],
           [\<lparr>fz_name = ''DE-Geb'', fz_dataTakeID = ''T1'', fz_clouds = ''icos_na'',
              fz_geometry = None,
              fluxes = [(''NEE_VUT_50_QC'', 0), (''SW_IN_F_QC'', 0)]\<rparr>])
   \<and> sentinel \<in> snd ` set [(''WS'', 2), (''PBLH'', sentinel), (''MO_LENGTH'', 5),
        (''V_SIGMA'', 1), (''USTAR'', 1), (''WD'', 180 :: real)]
   \<and> model_geoms (\<lambda>zm s. Inr []) True ''CRO'' False [''NEE_VUT_50_QC'', ''SW_IN_F_QC''] []
      [(10, [(''WS'', 2), (''PBLH'', sentinel), (''MO_LENGTH'', 5), (''V_SIGMA'', 1),
             (''USTAR'', 1), (''WD'', 180), (''NEE_VUT_50_QC'', 0), (''SW_IN_F_QC'', 1)])]
      [\<lparr>name = ''DE-Geb'', date = 10, dataTakeID = ''T1'', clouds = [], era_pblh = 0\<rparr>]
      [0] [3]
    = Inr ([\<lparr>name = ''DE-Geb'', date = 10, dataTakeID = ''T1'', clouds = [], era_pblh = 0\<rparr>],
           [\<lparr>fz_name = ''DE-Geb'', fz_dataTakeID = ''T1'', fz_clouds = [],
              fz_geometry = Some (Buffer 30),
              fluxes = [(''NEE_VUT_50_QC'', 0), (''SW_IN_F_QC'', 1)]\<rparr>])"
proof -
  let ?s = "[(''WS'', 2), (''PBLH'', sentinel), (''MO_LENGTH'', 5), (''V_SIGMA'', 1),
             (''USTAR'', 1), (''WD'', 180), (''NEE_VUT_50_QC'', 0), (''SW_IN_F_QC'', 1)]"
  let ?vals = "[(''WS'', 2), (''PBLH'', sentinel), (''MO_LENGTH'', 5), (''V_SIGMA'', 1),
             (''USTAR'', 1), (''WD'', 180 :: real)]"
  let ?db = "[\<lparr>name = ''DE-Geb'', date = 10, dataTakeID = ''T1'', clouds = [], era_pblh = 0\<rparr>]"
  let ?fv = "[''NEE_VUT_50_QC'', ''SW_IN_F_QC'']"
  let ?db2 = "[\<lparr>name = ''DE-Geb'', date = 10, dataTakeID = ''T1'', clouds = ''icos_na'',
              era_pblh = 0\<rparr>]"
  let ?recs = "[\<lparr>fz_name = ''DE-Geb'', fz_dataTakeID = ''T1'', fz_clouds = ''icos_na'',
              fz_geometry = None,
              fluxes = [(''NEE_VUT_50_QC'', 0), (''SW_IN_F_QC'', 0)]\<rparr>]"
  let ?recz = "[\<lparr>fz_name = ''DE-Geb'', fz_dataTakeID = ''T1'', fz_clouds = [],
              fz_geometry = Some (Buffer 30),
              fluxes = [(''NEE_VUT_50_QC'', 0), (''SW_IN_F_QC'', 1)]\<rparr>]"
  have sq: "squeeze_rows [(10, ?s)] (date (?db ! ([0] ! 0))) = Row ?s"
    by (simp add: squeeze_rows_def)
  have sl: "series_loc (if False then ?s @ [(''PBLH'', era_pblh (?db ! ([0] ! 0)))] else ?s)
      required_fields = Inr ?vals"
    by (simp add: series_loc_def required_fields_def)
  have na: "sentinel \<in> snd ` set ?vals \<or> date (?db ! ([0] ! 0)) \<in> set []"
    by simp
  have st: "geom_step (\<lambda>zm s. Inr []) False None False ?fv [] [(10, ?s)] ?db 0 3
      = Inr (set_clouds ?db ''T1'' ''icos_na'', None, Row (zeros ?fv))"
    using geom_step_na [OF sq sl na, of "\<lambda>zm s. Inr []" None ?fv 3] by simp
  have m: "model_geoms (\<lambda>zm s. Inr []) False ''CRO'' False ?fv [] [(10, ?s)] ?db [0] [3]
      = Inr (?db2, ?recs)"
    by (simp add: model_geoms_def st set_clouds_def zeros_def flux_of_def series_loc_def)
  have z: "model_geoms (\<lambda>zm s. Inr []) True ''CRO'' False ?fv [] [(10, ?s)] ?db [0] [3]
      = Inr (?db, ?recz)"
    by (simp add: model_geoms_def zonal_radius_def geom_step_def squeeze_rows_def flux_of_def
        series_loc_def)
  have l: "length [3 :: real] = length [0 :: nat]" by simp
  have i: "0 < length [0 :: nat]" by simp
  have j: "[0] ! 0 < length ?db" by simp
  note t = missing_flux_gives_null_geometry [OF l i j, of "\<lambda>zm s. Inr []" "''CRO''" False ?fv
      "[]" "[(10, ?s)]" ?db2 ?recs ?db ?recz]
  have v: "sentinel \<in> snd ` set ?vals" by simp
  show ?thesis
    using t m z v by blast
qed

text \<open>
  C1, as stated, covers every pair. In zonal mode the round of the loop ends before the
  test for missing data: an image whose date has no flux record keeps the buffer of its
  ecosystem class, its annotation is untouched and its productivity variables stay at the
  sentinel.
\<close>

theorem zonal_keeps_buffer_counterexample:
  "date (\<lparr>name = ''DE-Geb'', date = 10, dataTakeID = ''T1'', clouds = [], era_pblh = 0\<rparr>)
     \<in> set [10]
   \<and> model_geoms (\<lambda>zm s. Inr []) True ''CRO'' False [''NEE_VUT_50_QC'', ''SW_IN_F_QC''] [10]
      [(10, [(''NEE_VUT_50_QC'', sentinel), (''SW_IN_F_QC'', sentinel)])]
      [\<lparr>name = ''DE-Geb'', date = 10, dataTakeID = ''T1'', clouds = [], era_pblh = 0\<rparr>]
      [0] [sentinel]
    = Inr ([\<lparr>name = ''DE-Geb'', date = 10, dataTakeID = ''T1'', clouds = [], era_pblh = 0\<rparr>],
           [\<lparr>fz_name = ''DE-Geb'', fz_dataTakeID = ''T1'', fz_clouds = [],
              fz_geometry = Some (Buffer 30),
              fluxes = [(''NEE_VUT_50_QC'', sentinel), (''SW_IN_F_QC'', sentinel)]\<rparr>])
   \<and> sentinel \<noteq> 0"
  by (simp add: model_geoms_def zonal_radius_def geom_step_def squeeze_rows_def flux_of_def
      series_loc_def sentinel_def)

end
